theory Spec2Isabelle
  imports Complex_Main "HOL-Library.AList"
begin

section \<open>Target trial emulation pipeline (TTE-v1.ipynb)\<close>

text \<open>
  The notebook runs four cells over pandas tables: it loads \<open>data\<close>, attaches the
  censoring weights to it, expands it into trial-entry rows (\<open>expand_trials\<close>) and fits
  the weighted outcome model on the expanded table.

  A cell value is a number, kept as the real number it denotes, and every column has a
  dtype, \<open>int64\<close> or \<open>float64\<close>. Arithmetic on \<open>float64\<close> values is exact in the model
  (no rounding, no NaN); what is modelled of the floating-point format is the
  conversion of an \<open>int64\<close> to the nearest \<open>float64\<close>, which \<open>iterrows\<close> performs.
\<close>

subsection \<open>Tables\<close>

text \<open>
  A row is a pandas \<open>Series\<close>: labelled values in label order. Reading a label that is
  absent raises \<open>KeyError\<close>; assigning to a label replaces the value where the label
  exists and appends the label at the end where it does not, which is what
  \<^const>\<open>AList.update\<close> does.
\<close>

type_synonym row = "(string \<times> real) list"

text \<open>
  What can be raised: a missing label or column, a formula variable that the data does
  not have, an unbound variable of the notebook, and whatever a fit of the statistics
  library raises.
\<close>

datatype error = KeyError string | PatsyError string | NameError string | FitError string

definition row_get :: "row \<Rightarrow> string \<Rightarrow> error + real" where
  "row_get r c = (case map_of r c of None \<Rightarrow> Inl (KeyError c) | Some v \<Rightarrow> Inr v)"

definition row_set :: "row \<Rightarrow> string \<Rightarrow> real \<Rightarrow> row" where
  "row_set r c v = AList.update c v r"

text \<open>
  A \<open>DataFrame\<close> has its columns, each with its dtype, and its rows; every row of a
  frame carries the frame's labels (\<open>wf_frame\<close>). The two categorical columns of the
  notebook (\<open>x3\<close>, \<open>x4\<close>) count with the dtype of their categories, which is how
  pandas treats them when it looks for the common dtype of a row.
\<close>

datatype dtype = int64 | float64

record dataframe =
  dtypes :: "(string \<times> dtype) list"
  rows :: "row list"

definition columns :: "dataframe \<Rightarrow> string list" where
  "columns df = map fst (dtypes df)"

definition wf_frame :: "dataframe \<Rightarrow> bool" where
  "wf_frame df = list_all (\<lambda>r. map fst r = columns df) (rows df)"

text \<open>
  The conversion of an \<open>int64\<close> to \<open>float64\<close>: a double has 53 significant bits, so an
  integer of magnitude below \<open>2^(53 + e)\<close> is rounded to a multiple of \<open>2^e\<close>, to the
  nearest one and to the even one of two that are equally near. Below \<open>2^53\<close> nothing
  changes. An \<open>int64\<close> has magnitude at most \<open>2^63\<close>.
\<close>

definition round_half_even :: "nat \<Rightarrow> int \<Rightarrow> int" where
  "round_half_even e a =
     (let q = a div 2 ^ e; r = a mod 2 ^ e
      in (if 2 ^ e < 2 * r \<or> (2 * r = 2 ^ e \<and> odd q) then q + 1 else q) * 2 ^ e)"

definition float64_of_int64 :: "int \<Rightarrow> real" where
  "float64_of_int64 n =
     (case find (\<lambda>e. \<bar>n\<bar> < 2 ^ (53 + e)) [0, 1, 2, 3, 4, 5, 6, 7, 8, 9, 10, 11] of
        Some e \<Rightarrow> of_int (sgn n * round_half_even e \<bar>n\<bar>)
      | None \<Rightarrow> of_int n)"

text \<open>
  \<open>iterrows\<close> yields the rows in index order, each as one \<open>Series\<close>, which has one
  dtype: the common dtype of the columns, \<open>float64\<close> as soon as one column is
  \<open>float64\<close>. The cells of the \<open>int64\<close> columns, which are integers, are converted
  on the way.
\<close>

definition common_dtype :: "dataframe \<Rightarrow> dtype" where
  "common_dtype df = (if float64 \<in> snd ` set (dtypes df) then float64 else int64)"

definition row_value :: "dataframe \<Rightarrow> string \<Rightarrow> real \<Rightarrow> real" where
  "row_value df c v =
     (if common_dtype df = float64 \<and> map_of (dtypes df) c = Some int64 \<and> of_int \<lfloor>v\<rfloor> = v
      then float64_of_int64 \<lfloor>v\<rfloor> else v)"

definition row_series :: "dataframe \<Rightarrow> row \<Rightarrow> row" where
  "row_series df r = map (\<lambda>(c, v). (c, row_value df c v)) r"

definition iterrows :: "dataframe \<Rightarrow> row list" where
  "iterrows df = map (row_series df) (rows df)"

text \<open>
  \<open>pd.DataFrame(series_list)\<close>: the labels of the series become the columns, with the
  dtype \<open>dt\<close> that the series have. An empty list gives the empty frame, which has no
  rows and no columns.
\<close>

definition DataFrame :: "dtype \<Rightarrow> row list \<Rightarrow> dataframe" where
  "DataFrame dt rs =
     \<lparr>dtypes = (case rs of [] \<Rightarrow> [] | r # _ \<Rightarrow> map (\<lambda>(c, v). (c, dt)) r), rows = rs\<rparr>"

text \<open>
  \<open>df[c]\<close> reads a column and raises \<open>KeyError\<close> when the frame has no such column;
  in a frame whose rows carry its labels every row then has a value under \<open>c\<close>.
  \<open>df[c] = vals\<close> writes one value per row and the dtype of the values, adding the
  column when it is new; the notebook only ever assigns values computed from the
  columns of the same frame, one per row.
\<close>

definition get_column :: "dataframe \<Rightarrow> string \<Rightarrow> error + real list" where
  "get_column df c =
     (if c \<in> set (columns df) then Inr (map (\<lambda>r. the (map_of r c)) (rows df))
      else Inl (KeyError c))"

definition column_dtype :: "dataframe \<Rightarrow> string \<Rightarrow> error + dtype" where
  "column_dtype df c =
     (case map_of (dtypes df) c of None \<Rightarrow> Inl (KeyError c) | Some dt \<Rightarrow> Inr dt)"

definition set_column :: "dataframe \<Rightarrow> string \<Rightarrow> dtype \<Rightarrow> real list \<Rightarrow> dataframe" where
  "set_column df c dt vals =
     \<lparr>dtypes = AList.update c dt (dtypes df),
      rows = map (\<lambda>(r, v). row_set r c v) (zip (rows df) vals)\<rparr>"

subsection \<open>Step 2: inverse probability of censoring weights\<close>

text \<open>
  \<^verbatim>\<open>
  data['uncensored'] = 1 - data['censored']
  ipcw_model = smf.logit("uncensored ~ x2 + x1", data=data).fit(disp=False)
  data['p_uncensored'] = ipcw_model.predict(data)
  data['p_uncensored'] = data['p_uncensored'].clip(lower=0.01)
  data['ipcw'] = 1.0 / data['p_uncensored']
  \<close>
  Each statement either raises or goes on with the table as it then is; \<open>bind_err\<close>
  threads that. The optimiser behind \<open>fit\<close> belongs to the statistics library and is a
  parameter of the model: it returns the three coefficients of the formula or raises.
  What the cell fixes is the model family: the prediction of a logit model is the
  logistic function of the linear predictor of \<open>x2 + x1\<close>. \<open>1 - censored\<close> has the
  dtype of \<open>censored\<close>; predictions, clipped predictions and their inverses are
  \<open>float64\<close>.
\<close>

definition bind_err :: "error + 'a \<Rightarrow> ('a \<Rightarrow> error + 'b) \<Rightarrow> error + 'b" where
  "bind_err m f = (case m of Inl e \<Rightarrow> Inl e | Inr x \<Rightarrow> f x)"

record logit_result =
  coef_Intercept :: real
  coef_x2 :: real
  coef_x1 :: real

definition logistic :: "real \<Rightarrow> real" where
  "logistic z = 1 / (1 + exp (- z))"

text \<open>A variable of a formula is looked up among the columns of the data.\<close>

definition formula_var :: "dataframe \<Rightarrow> string \<Rightarrow> error + real list" where
  "formula_var df v = (case get_column df v of Inl _ \<Rightarrow> Inl (PatsyError v) | Inr xs \<Rightarrow> Inr xs)"

definition predict :: "logit_result \<Rightarrow> dataframe \<Rightarrow> error + real list" where
  "predict m df =
     bind_err (formula_var df ''x2'') (\<lambda>x2.
     bind_err (formula_var df ''x1'') (\<lambda>x1.
       Inr (map (\<lambda>(a, b). logistic (coef_Intercept m + coef_x2 m * a + coef_x1 m * b))
              (zip x2 x1))))"

definition clip_lower :: "real \<Rightarrow> real list \<Rightarrow> real list" where
  "clip_lower lo xs = map (\<lambda>x. max x lo) xs"

text \<open>The first statement of the cell, and the three that follow the fit.\<close>

definition add_uncensored :: "dataframe \<Rightarrow> error + dataframe" where
  "add_uncensored data0 =
     bind_err (get_column data0 ''censored'') (\<lambda>censored.
     bind_err (column_dtype data0 ''censored'') (\<lambda>dt.
       Inr (set_column data0 ''uncensored'' dt (map (\<lambda>c. 1 - c) censored))))"

definition attach_weights :: "logit_result \<Rightarrow> dataframe \<Rightarrow> error + dataframe" where
  "attach_weights ipcw_model data1 =
     bind_err (predict ipcw_model data1) (\<lambda>p.
     let data2 = set_column data1 ''p_uncensored'' float64 p in
     bind_err (get_column data2 ''p_uncensored'') (\<lambda>p.
     let data3 = set_column data2 ''p_uncensored'' float64 (clip_lower (1 / 100) p) in
     bind_err (get_column data3 ''p_uncensored'') (\<lambda>p.
       Inr (set_column data3 ''ipcw'' float64 (map (\<lambda>x. 1 / x) p)))))"

definition censoring_weights ::
  "(dataframe \<Rightarrow> error + logit_result) \<Rightarrow> dataframe \<Rightarrow> error + dataframe" where
  "censoring_weights fit data0 =
     bind_err (add_uncensored data0) (\<lambda>data1.
     bind_err (fit data1) (\<lambda>ipcw_model.
       attach_weights ipcw_model data1))"

subsection \<open>Step 3: the trial-entry expander\<close>

text \<open>
  \<^verbatim>\<open>
  def expand_trials(df):
      expanded_rows = []
      for _, row in df.iterrows():
          if row['eligible'] == 1:
              new_row = row.copy()
              new_row['trial_period'] = row['period']
              new_row['followup_time'] = 0  # initial follow-up time
              expanded_rows.append(new_row)
      return pd.DataFrame(expanded_rows)
  \<close>
  The loop is a recursion over the remaining rows with the list built so far. The
  series it collects keep the dtype \<open>iterrows\<close> gave them, and the frame built from
  them has that dtype in every column.
\<close>

fun expand_loop :: "row list \<Rightarrow> row list \<Rightarrow> error + row list" where
  "expand_loop [] expanded_rows = Inr expanded_rows"
| "expand_loop (row # rest) expanded_rows =
     (case row_get row ''eligible'' of
        Inl e \<Rightarrow> Inl e
      | Inr el \<Rightarrow>
          if el = 1 then
            (case row_get row ''period'' of
               Inl e \<Rightarrow> Inl e
             | Inr p \<Rightarrow>
                 expand_loop rest
                   (expanded_rows @ [row_set (row_set row ''trial_period'' p) ''followup_time'' 0]))
          else expand_loop rest expanded_rows)"

definition expand_trials :: "dataframe \<Rightarrow> error + dataframe" where
  "expand_trials df =
     (case expand_loop (iterrows df) [] of
        Inl e \<Rightarrow> Inl e
      | Inr rs \<Rightarrow> Inr (DataFrame (common_dtype df) rs))"

text \<open>The rows the expander keeps, and what the schema of the input gives it.\<close>

definition is_eligible :: "row \<Rightarrow> bool" where
  "is_eligible r = (map_of r ''eligible'' = Some 1)"

definition has_column :: "row \<Rightarrow> string \<Rightarrow> bool" where
  "has_column r c = (map_of r c \<noteq> None)"

definition trial_entry :: "row \<Rightarrow> row" where
  "trial_entry r =
     row_set (row_set r ''trial_period'' (the (map_of r ''period''))) ''followup_time'' 0"

subsection \<open>Step 4: the weighted outcome model\<close>

text \<open>
  \<^verbatim>\<open>
  expanded_data['assigned_treatment'] = expanded_data['treatment']
  q99 = expanded_data['ipcw'].quantile(0.99)
  expanded_data['ipcw_winsor'] = expanded_data['ipcw'].apply(lambda w: min(w, q99))
  formula = ("outcome ~ assigned_treatment + x2 + followup_time + np.power(followup_time, 2) "
             "+ trial_period + np.power(trial_period, 2)")
  msm_model = smf.glm(formula, data=expanded_data, family=sm.families.Binomial(),
                      freq_weights=expanded_data['ipcw_winsor']).fit()
  \<close>
  \<open>Series.quantile(q)\<close> with its default linear interpolation: on the sorted values
  \<open>s\<close> of a series of length \<open>n\<close>, with \<open>h = (n - 1) * q\<close>, the value is
  \<open>s[floor h] + (s[ceil h] - s[floor h]) * (h - floor h)\<close>. The quantile of an empty series is
  NaN, here \<open>None\<close>; \<open>min(w, nan)\<close> is \<open>w\<close>, and no \<open>w\<close> exists in that case.
  The copy of \<open>treatment\<close> has its dtype. The result of \<open>apply\<close> is \<open>float64\<close> unless
  the weights are \<open>int64\<close> and \<open>min\<close> returned each of them as it was.
\<close>

definition quantile :: "real list \<Rightarrow> real \<Rightarrow> real option" where
  "quantile xs q =
     (if xs = [] then None
      else
        let s = sort xs;
            h = real (length xs - 1) * q;
            lo = nat \<lfloor>h\<rfloor>;
            hi = nat \<lceil>h\<rceil>
        in Some (s ! lo + (s ! hi - s ! lo) * (h - real lo)))"

definition min_cap :: "real option \<Rightarrow> real \<Rightarrow> real" where
  "min_cap q99 w = (case q99 of None \<Rightarrow> w | Some q \<Rightarrow> min w q)"

definition winsorize :: "real list \<Rightarrow> real list" where
  "winsorize ipcw = (let q99 = quantile ipcw (99 / 100) in map (min_cap q99) ipcw)"

definition winsor_dtype :: "dtype \<Rightarrow> real list \<Rightarrow> dtype" where
  "winsor_dtype dt ipcw =
     (let q99 = quantile ipcw (99 / 100)
      in if dt = int64 \<and> list_all (\<lambda>w. min_cap q99 w = w) ipcw then int64 else float64)"

definition msm_columns :: "dataframe \<Rightarrow> error + dataframe" where
  "msm_columns expanded_data0 =
     bind_err (get_column expanded_data0 ''treatment'') (\<lambda>treatment.
     bind_err (column_dtype expanded_data0 ''treatment'') (\<lambda>dt.
     let expanded_data1 = set_column expanded_data0 ''assigned_treatment'' dt treatment in
     bind_err (get_column expanded_data1 ''ipcw'') (\<lambda>ipcw.
     bind_err (column_dtype expanded_data1 ''ipcw'') (\<lambda>dw.
       Inr (set_column expanded_data1 ''ipcw_winsor'' (winsor_dtype dw ipcw)
              (winsorize ipcw))))))"

text \<open>
  The formula names the response and the regressors. The design matrix has one named
  column per term, the intercept first, in the order of the formula.
\<close>

record design =
  endog :: "real list"
  exog :: "(string \<times> real list) list"

definition design_matrices :: "dataframe \<Rightarrow> error + design" where
  "design_matrices df =
     bind_err (formula_var df ''outcome'') (\<lambda>outcome.
     bind_err (formula_var df ''assigned_treatment'') (\<lambda>assigned_treatment.
     bind_err (formula_var df ''x2'') (\<lambda>x2.
     bind_err (formula_var df ''followup_time'') (\<lambda>followup_time.
     bind_err (formula_var df ''trial_period'') (\<lambda>trial_period.
       Inr \<lparr>endog = outcome,
            exog =
              [(''Intercept'', map (\<lambda>_. 1) outcome),
               (''assigned_treatment'', assigned_treatment),
               (''x2'', x2),
               (''followup_time'', followup_time),
               (''np.power(followup_time, 2)'', map (\<lambda>t. t ^ 2) followup_time),
               (''trial_period'', trial_period),
               (''np.power(trial_period, 2)'', map (\<lambda>t. t ^ 2) trial_period)]\<rparr>)))))"

text \<open>
  The fit of the binomial GLM is the library's: \<open>glm_fit\<close> takes the design and the
  frequency weights and returns a fitted model or raises.
\<close>

definition msm_model ::
  "(design \<Rightarrow> real list \<Rightarrow> error + 'm) \<Rightarrow> dataframe \<Rightarrow> error + (dataframe \<times> 'm)" where
  "msm_model glm_fit expanded_data0 =
     bind_err (msm_columns expanded_data0) (\<lambda>expanded_data.
     bind_err (design_matrices expanded_data) (\<lambda>d.
     bind_err (get_column expanded_data ''ipcw_winsor'') (\<lambda>freq_weights.
     bind_err (glm_fit d freq_weights) (\<lambda>m. Inr (expanded_data, m)))))"

subsection \<open>The notebook's objects\<close>

text \<open>
  Tables and rows are objects: \<open>data\<close> and \<open>expanded_data\<close> name tables, \<open>row\<close> and
  \<open>new_row\<close> name series. The heap lists the objects of each class, and a variable holds
  the position of its object. \<open>df[c] = vals\<close> and \<open>s[c] = v\<close> change the object they are
  applied to (\<open>put_frame\<close>, \<open>put_series\<close>: the object at that position becomes the
  changed one); \<open>pd.DataFrame(...)\<close>, \<open>iterrows\<close> and \<open>copy\<close> make new objects. A
  position beyond the heap stands for a name that is not bound.
\<close>

record heap =
  frames :: "dataframe list"
  series :: "row list"

definition frame_at :: "heap \<Rightarrow> nat \<Rightarrow> error + dataframe" where
  "frame_at h df =
     (if df < length (frames h) then Inr (frames h ! df) else Inl (NameError ''DataFrame''))"

definition frame_getitem :: "heap \<Rightarrow> nat \<Rightarrow> string \<Rightarrow> error + real list" where
  "frame_getitem h df c = bind_err (frame_at h df) (\<lambda>d. get_column d c)"

definition frame_dtype :: "heap \<Rightarrow> nat \<Rightarrow> string \<Rightarrow> error + dtype" where
  "frame_dtype h df c = bind_err (frame_at h df) (\<lambda>d. column_dtype d c)"

definition put_frame :: "heap \<Rightarrow> nat \<Rightarrow> dataframe \<Rightarrow> heap" where
  "put_frame h df d = h\<lparr>frames := (frames h)[df := d]\<rparr>"

definition frame_setitem ::
  "heap \<Rightarrow> nat \<Rightarrow> string \<Rightarrow> dtype \<Rightarrow> real list \<Rightarrow> error + heap" where
  "frame_setitem h df c dt vals =
     bind_err (frame_at h df) (\<lambda>d. Inr (put_frame h df (set_column d c dt vals)))"

definition new_frame :: "heap \<Rightarrow> dataframe \<Rightarrow> heap \<times> nat" where
  "new_frame h d = (h\<lparr>frames := frames h @ [d]\<rparr>, length (frames h))"

definition series_at :: "heap \<Rightarrow> nat \<Rightarrow> error + row" where
  "series_at h s =
     (if s < length (series h) then Inr (series h ! s) else Inl (NameError ''Series''))"

definition series_getitem :: "heap \<Rightarrow> nat \<Rightarrow> string \<Rightarrow> error + real" where
  "series_getitem h s c = bind_err (series_at h s) (\<lambda>r. row_get r c)"

definition put_series :: "heap \<Rightarrow> nat \<Rightarrow> row \<Rightarrow> heap" where
  "put_series h s r = h\<lparr>series := (series h)[s := r]\<rparr>"

definition series_setitem :: "heap \<Rightarrow> nat \<Rightarrow> string \<Rightarrow> real \<Rightarrow> error + heap" where
  "series_setitem h s c v =
     bind_err (series_at h s) (\<lambda>r. Inr (put_series h s (row_set r c v)))"

definition new_series :: "heap \<Rightarrow> row \<Rightarrow> heap \<times> nat" where
  "new_series h r = (h\<lparr>series := series h @ [r]\<rparr>, length (series h))"

definition series_copy :: "heap \<Rightarrow> nat \<Rightarrow> error + heap \<times> nat" where
  "series_copy h s = bind_err (series_at h s) (\<lambda>r. Inr (new_series h r))"

text \<open>
  Step 2 on the heap, statement by statement: every assignment is to the object that
  \<open>data\<close> names. A cell that raises returns the error alone: the heap a raise leaves
  behind is not modelled.
\<close>

definition cell_ipcw ::
  "(dataframe \<Rightarrow> error + logit_result) \<Rightarrow> heap \<Rightarrow> nat \<Rightarrow> error + heap" where
  "cell_ipcw fit h data =
     bind_err (frame_getitem h data ''censored'') (\<lambda>censored.
     bind_err (frame_dtype h data ''censored'') (\<lambda>dt.
     bind_err (frame_setitem h data ''uncensored'' dt (map (\<lambda>c. 1 - c) censored)) (\<lambda>h1.
     bind_err (frame_at h1 data) (\<lambda>d.
     bind_err (fit d) (\<lambda>ipcw_model.
     bind_err (predict ipcw_model d) (\<lambda>p.
     bind_err (frame_setitem h1 data ''p_uncensored'' float64 p) (\<lambda>h2.
     bind_err (frame_getitem h2 data ''p_uncensored'') (\<lambda>p.
     bind_err (frame_setitem h2 data ''p_uncensored'' float64 (clip_lower (1 / 100) p)) (\<lambda>h3.
     bind_err (frame_getitem h3 data ''p_uncensored'') (\<lambda>p.
       frame_setitem h3 data ''ipcw'' float64 (map (\<lambda>x. 1 / x) p)))))))))))"

text \<open>
  Step 3 on the heap: \<open>iterrows\<close> hands each row over as a new series, \<open>row.copy()\<close>
  makes another, the two assignments go to the copy, and \<open>expanded_rows\<close> collects the
  copies. The frame built from them is a new object.
\<close>

fun expand_rows :: "heap \<Rightarrow> row list \<Rightarrow> nat list \<Rightarrow> error + heap \<times> nat list" where
  "expand_rows h [] expanded_rows = Inr (h, expanded_rows)"
| "expand_rows h (r # rest) expanded_rows =
     (case new_series h r of (h1, row) \<Rightarrow>
      (case series_getitem h1 row ''eligible'' of
         Inl e \<Rightarrow> Inl e
       | Inr el \<Rightarrow>
           if el = 1 then
             (case series_copy h1 row of
                Inl e \<Rightarrow> Inl e
              | Inr (h2, new_row) \<Rightarrow>
                  (case series_getitem h2 row ''period'' of
                     Inl e \<Rightarrow> Inl e
                   | Inr p \<Rightarrow>
                       (case series_setitem h2 new_row ''trial_period'' p of
                          Inl e \<Rightarrow> Inl e
                        | Inr h3 \<Rightarrow>
                            (case series_setitem h3 new_row ''followup_time'' 0 of
                               Inl e \<Rightarrow> Inl e
                             | Inr h4 \<Rightarrow> expand_rows h4 rest (expanded_rows @ [new_row])))))
           else expand_rows h1 rest expanded_rows))"

definition cell_expand :: "heap \<Rightarrow> nat \<Rightarrow> error + heap \<times> nat" where
  "cell_expand h data =
     bind_err (frame_at h data) (\<lambda>df.
     bind_err (expand_rows h (iterrows df) []) (\<lambda>(h1, expanded_rows).
       Inr (new_frame h1 (DataFrame (common_dtype df) (map (\<lambda>s. series h1 ! s) expanded_rows)))))"

text \<open>Step 4 on the heap: the two assignments are to the object \<open>expanded_data\<close> names.\<close>

definition cell_msm ::
  "(design \<Rightarrow> real list \<Rightarrow> error + 'm) \<Rightarrow> heap \<Rightarrow> nat \<Rightarrow> error + heap \<times> 'm" where
  "cell_msm glm_fit h expanded_data =
     bind_err (frame_getitem h expanded_data ''treatment'') (\<lambda>treatment.
     bind_err (frame_dtype h expanded_data ''treatment'') (\<lambda>dt.
     bind_err (frame_setitem h expanded_data ''assigned_treatment'' dt treatment) (\<lambda>h1.
     bind_err (frame_getitem h1 expanded_data ''ipcw'') (\<lambda>ipcw.
     bind_err (frame_dtype h1 expanded_data ''ipcw'') (\<lambda>dw.
     bind_err (frame_setitem h1 expanded_data ''ipcw_winsor'' (winsor_dtype dw ipcw)
                 (winsorize ipcw)) (\<lambda>h2.
     bind_err (frame_at h2 expanded_data) (\<lambda>d.
     bind_err (design_matrices d) (\<lambda>dm.
     bind_err (frame_getitem h2 expanded_data ''ipcw_winsor'') (\<lambda>freq_weights.
     bind_err (glm_fit dm freq_weights) (\<lambda>m. Inr (h2, m)))))))))))"

subsection \<open>Example inputs\<close>

text \<open>
  The first two rows of the notebook's data set: one patient, two periods, eligible in
  the first only. \<open>flat_fit\<close> and \<open>steep_fit\<close> stand for two results the optimiser can
  return: all coefficients zero, and an intercept of \<open>-100\<close>.
\<close>

definition example_data :: dataframe where
  "example_data =
     \<lparr>dtypes = [(''id'', int64), (''period'', int64), (''treatment'', int64), (''x1'', int64),
                 (''x2'', float64), (''x3'', int64), (''x4'', float64), (''age'', int64),
                 (''age_s'', float64), (''outcome'', int64), (''censored'', int64),
                 (''eligible'', int64)],
      rows =
        [[(''id'', 1), (''period'', 0), (''treatment'', 1), (''x1'', 1), (''x2'', 115 / 100),
          (''x3'', 0), (''x4'', 73 / 100), (''age'', 36), (''age_s'', 8 / 100),
          (''outcome'', 0), (''censored'', 0), (''eligible'', 1)],
         [(''id'', 1), (''period'', 1), (''treatment'', 1), (''x1'', 1), (''x2'', 0),
          (''x3'', 0), (''x4'', 73 / 100), (''age'', 37), (''age_s'', 17 / 100),
          (''outcome'', 0), (''censored'', 0), (''eligible'', 0)]]\<rparr>"

definition flat_fit :: "dataframe \<Rightarrow> error + logit_result" where
  "flat_fit d = Inr \<lparr>coef_Intercept = 0, coef_x2 = 0, coef_x1 = 0\<rparr>"

definition steep_fit :: "dataframe \<Rightarrow> error + logit_result" where
  "steep_fit d = Inr \<lparr>coef_Intercept = - 100, coef_x2 = 0, coef_x1 = 0\<rparr>"

text \<open>
  A table with weights whose first patient has an identifier above \<open>2^53\<close>, a table
  without an eligible row, and a table with two different weights.
\<close>

definition example_big_id :: dataframe where
  "example_big_id =
     \<lparr>dtypes = [(''id'', int64), (''period'', int64), (''treatment'', int64), (''x1'', int64),
                 (''x2'', float64), (''x3'', int64), (''x4'', float64), (''age'', int64),
                 (''age_s'', float64), (''outcome'', int64), (''censored'', int64),
                 (''eligible'', int64), (''uncensored'', int64), (''p_uncensored'', float64),
                 (''ipcw'', float64)],
      rows =
        [[(''id'', 9007199254740993), (''period'', 0), (''treatment'', 1), (''x1'', 1),
          (''x2'', 115 / 100), (''x3'', 0), (''x4'', 73 / 100), (''age'', 36),
          (''age_s'', 8 / 100), (''outcome'', 0), (''censored'', 0), (''eligible'', 1),
          (''uncensored'', 1), (''p_uncensored'', 1 / 2), (''ipcw'', 2)],
         [(''id'', 9007199254740993), (''period'', 1), (''treatment'', 1), (''x1'', 1),
          (''x2'', 0), (''x3'', 0), (''x4'', 73 / 100), (''age'', 37), (''age_s'', 17 / 100),
          (''outcome'', 0), (''censored'', 0), (''eligible'', 0), (''uncensored'', 1),
          (''p_uncensored'', 1 / 2), (''ipcw'', 2)]]\<rparr>"

definition example_none_eligible :: dataframe where
  "example_none_eligible =
     \<lparr>dtypes = [(''id'', int64), (''period'', int64), (''treatment'', int64),
                 (''x2'', float64), (''outcome'', int64), (''eligible'', int64),
                 (''ipcw'', float64)],
      rows =
        [[(''id'', 1), (''period'', 0), (''treatment'', 1), (''x2'', 1), (''outcome'', 0),
          (''eligible'', 0), (''ipcw'', 2)],
         [(''id'', 1), (''period'', 1), (''treatment'', 1), (''x2'', 0), (''outcome'', 1),
          (''eligible'', 0), (''ipcw'', 2)]]\<rparr>"

definition example_two_weights :: dataframe where
  "example_two_weights =
     \<lparr>dtypes = [(''treatment'', int64), (''ipcw'', float64)],
      rows =
        [[(''treatment'', 1), (''ipcw'', 1)],
         [(''treatment'', 0), (''ipcw'', 2)]]\<rparr>"

text \<open>
  Five patients over two periods each. Censored and uncensored rows lie at interleaved
  values of \<open>x2\<close> for either value of \<open>x1\<close>, and among the eligible rows both
  outcomes occur for each treatment and period, at values of \<open>x2\<close> in either order, so
  that both regressions have data to fit. \<open>notebook_start\<close> is the heap after step 1,
  when this table is all there is.
\<close>

definition trial_data :: dataframe where
  "trial_data =
     \<lparr>dtypes = [(''id'', int64), (''period'', int64), (''treatment'', int64), (''x1'', int64),
                 (''x2'', float64), (''x3'', int64), (''x4'', float64), (''age'', int64),
                 (''age_s'', float64), (''outcome'', int64), (''censored'', int64),
                 (''eligible'', int64)],
      rows =
        [[(''id'', 1), (''period'', 0), (''treatment'', 1), (''x1'', 0), (''x2'', - 1),
          (''x3'', 0), (''x4'', 73 / 100), (''age'', 36), (''age_s'', 8 / 100),
          (''outcome'', 1), (''censored'', 0), (''eligible'', 1)],
         [(''id'', 1), (''period'', 1), (''treatment'', 1), (''x1'', 0), (''x2'', - (1 / 2)),
          (''x3'', 0), (''x4'', 73 / 100), (''age'', 37), (''age_s'', 17 / 100),
          (''outcome'', 0), (''censored'', 1), (''eligible'', 1)],
         [(''id'', 2), (''period'', 0), (''treatment'', 1), (''x1'', 0), (''x2'', 1 / 2),
          (''x3'', 0), (''x4'', - (99 / 100)), (''age'', 26), (''age_s'', - (75 / 100)),
          (''outcome'', 0), (''censored'', 0), (''eligible'', 1)],
         [(''id'', 2), (''period'', 1), (''treatment'', 1), (''x1'', 0), (''x2'', 1),
          (''x3'', 0), (''x4'', - (99 / 100)), (''age'', 27), (''age_s'', - (67 / 100)),
          (''outcome'', 1), (''censored'', 1), (''eligible'', 1)],
         [(''id'', 3), (''period'', 0), (''treatment'', 0), (''x1'', 1), (''x2'', - (1 / 5)),
          (''x3'', 1), (''x4'', 39 / 100), (''age'', 48), (''age_s'', 108 / 100),
          (''outcome'', 0), (''censored'', 0), (''eligible'', 1)],
         [(''id'', 3), (''period'', 1), (''treatment'', 0), (''x1'', 1), (''x2'', - 1),
          (''x3'', 1), (''x4'', 39 / 100), (''age'', 49), (''age_s'', 117 / 100),
          (''outcome'', 1), (''censored'', 1), (''eligible'', 1)],
         [(''id'', 4), (''period'', 0), (''treatment'', 0), (''x1'', 1), (''x2'', 1),
          (''x3'', 1), (''x4'', - (161 / 100)), (''age'', 29), (''age_s'', - (1 / 2)),
          (''outcome'', 1), (''censored'', 0), (''eligible'', 1)],
         [(''id'', 4), (''period'', 1), (''treatment'', 0), (''x1'', 1), (''x2'', 3 / 10),
          (''x3'', 1), (''x4'', - (161 / 100)), (''age'', 30), (''age_s'', - (42 / 100)),
          (''outcome'', 0), (''censored'', 1), (''eligible'', 1)],
         [(''id'', 5), (''period'', 0), (''treatment'', 0), (''x1'', 0), (''x2'', 0),
          (''x3'', 0), (''x4'', 5 / 100), (''age'', 41), (''age_s'', 1 / 2), (''outcome'', 0),
          (''censored'', 0), (''eligible'', 0)],
         [(''id'', 5), (''period'', 1), (''treatment'', 0), (''x1'', 1), (''x2'', 0),
          (''x3'', 0), (''x4'', 5 / 100), (''age'', 42), (''age_s'', 58 / 100),
          (''outcome'', 0), (''censored'', 0), (''eligible'', 0)]]\<rparr>"

definition notebook_start :: heap where
  "notebook_start = \<lparr>frames = [trial_data], series = []\<rparr>"

text \<open>Stand-ins for the GLM fit: one returns nothing of interest, one what it was given.\<close>

definition unit_glm :: "design \<Rightarrow> real list \<Rightarrow> error + unit" where
  "unit_glm d freq_weights = Inr ()"

definition recording_glm :: "design \<Rightarrow> real list \<Rightarrow> error + design \<times> real list" where
  "recording_glm d freq_weights = Inr (d, freq_weights)"

section \<open>Properties\<close>

subsection \<open>Rows\<close>

lemma map_of_row_set:
  "map_of (row_set r c v) c' = (if c' = c then Some v else map_of r c')"
  by (simp add: row_set_def update_conv')

lemma keys_row_set:
  "map fst (row_set r c v) = (if c \<in> set (map fst r) then map fst r else map fst r @ [c])"
  by (simp add: row_set_def update_keys)

lemma row_get_has:
  "has_column r c \<Longrightarrow> row_get r c = Inr (the (map_of r c))"
  by (auto simp: has_column_def row_get_def)

subsection \<open>Raising and going on\<close>

lemma bind_err_Inr_iff:
  "bind_err m f = Inr y \<longleftrightarrow> (\<exists>x. m = Inr x \<and> f x = Inr y)"
  by (cases m) (simp_all add: bind_err_def)

lemma bind_err_Inr [simp]: "bind_err (Inr x) f = f x"
  by (simp add: bind_err_def)

lemma bind_err_Inl [simp]: "bind_err (Inl e) f = Inl e"
  by (simp add: bind_err_def)

subsection \<open>Frames and columns\<close>

lemma rows_DataFrame: "rows (DataFrame dt rs) = rs"
  by (simp add: DataFrame_def)

lemma columns_DataFrame:
  "columns (DataFrame dt rs) = (case rs of [] \<Rightarrow> [] | r # _ \<Rightarrow> map fst r)"
  by (auto simp: DataFrame_def columns_def split: list.splits)

lemma length_rows_set_column:
  "length vals = length (rows df) \<Longrightarrow> length (rows (set_column df c dt vals)) = length (rows df)"
  by (simp add: set_column_def)

lemma nth_rows_set_column:
  "length vals = length (rows df) \<Longrightarrow> i < length (rows df) \<Longrightarrow>
   rows (set_column df c dt vals) ! i = row_set (rows df ! i) c (vals ! i)"
  by (simp add: set_column_def)

lemma columns_set_column_list:
  "columns (set_column df c dt vals) =
     (if c \<in> set (columns df) then columns df else columns df @ [c])"
  by (simp add: set_column_def columns_def update_keys)

lemma columns_set_column:
  "set (columns (set_column df c dt vals)) = insert c (set (columns df))"
  by (auto simp: columns_set_column_list)

lemma dtypes_set_column:
  "map_of (dtypes (set_column df c dt vals)) c' =
     (if c' = c then Some dt else map_of (dtypes df) c')"
  by (simp add: set_column_def update_conv')

lemma column_dtype_Inr_iff:
  "column_dtype df c = Inr dt \<longleftrightarrow> map_of (dtypes df) c = Some dt"
  by (simp add: column_dtype_def split: option.splits)

lemma column_dtype_returns:
  "c \<in> set (columns df) \<Longrightarrow> \<exists>dt. column_dtype df c = Inr dt"
  by (cases "map_of (dtypes df) c")
     (simp_all add: column_dtype_def columns_def map_of_eq_None_iff)

lemma get_column_length:
  "get_column df c = Inr xs \<Longrightarrow> length xs = length (rows df)"
  by (auto simp: get_column_def split: if_splits)

lemma get_column_nth:
  "get_column df c = Inr xs \<Longrightarrow> i < length (rows df) \<Longrightarrow> xs ! i = the (map_of (rows df ! i) c)"
  by (auto simp: get_column_def split: if_splits)

lemma get_column_Inr_iff:
  "get_column df c = Inr xs \<longleftrightarrow>
   c \<in> set (columns df) \<and> xs = map (\<lambda>r. the (map_of r c)) (rows df)"
  by (auto simp: get_column_def)

lemma get_set_column_same:
  assumes "length vals = length (rows df)"
  shows "get_column (set_column df c dt vals) c = Inr vals"
proof -
  have "map (\<lambda>r. the (map_of r c)) (rows (set_column df c dt vals)) = vals"
    using assms
    by (intro nth_equalityI) (simp_all add: length_rows_set_column nth_rows_set_column map_of_row_set)
  then show ?thesis
    by (simp add: get_column_def columns_set_column)
qed

lemma get_set_column_other:
  assumes "length vals = length (rows df)" and "c' \<noteq> c"
  shows "get_column (set_column df c dt vals) c' = get_column df c'"
proof -
  have "map (\<lambda>r. the (map_of r c')) (rows (set_column df c dt vals)) =
        map (\<lambda>r. the (map_of r c')) (rows df)"
    using assms
    by (intro nth_equalityI) (simp_all add: length_rows_set_column nth_rows_set_column map_of_row_set)
  then show ?thesis
    using assms(2) by (simp add: get_column_def columns_set_column)
qed

lemma column_dtype_set_column_other:
  "c' \<noteq> c \<Longrightarrow> column_dtype (set_column df c dt vals) c' = column_dtype df c'"
  by (simp add: column_dtype_def dtypes_set_column)

lemma wf_set_column: "wf_frame df \<Longrightarrow> wf_frame (set_column df c dt vals)"
  by (auto simp: wf_frame_def columns_set_column_list list_all_iff keys_row_set
      simp del: set_map dest!: set_zip_leftD)
     (auto simp: set_column_def keys_row_set dest!: set_zip_leftD)

lemma wf_frame_keys:
  "wf_frame df \<Longrightarrow> r \<in> set (rows df) \<Longrightarrow> map fst r = columns df"
  by (simp add: wf_frame_def list_all_iff)

lemma wf_frame_has_column:
  "wf_frame df \<Longrightarrow> c \<in> set (columns df) \<Longrightarrow> r \<in> set (rows df) \<Longrightarrow> has_column r c"
proof -
  assume a: "wf_frame df" "c \<in> set (columns df)" "r \<in> set (rows df)"
  then have "map fst r = columns df" by (simp add: wf_frame_def list_all_iff)
  with a(2) have "c \<in> fst ` set r" by (metis list.set_map)
  then show ?thesis by (simp add: has_column_def map_of_eq_None_iff)
qed

lemma formula_var_Inr:
  "formula_var df v = Inr xs \<longleftrightarrow> get_column df v = Inr xs"
  by (simp add: formula_var_def split: sum.splits)

subsection \<open>Conversion to float64\<close>

lemma round_half_even_0: "round_half_even 0 a = a"
  by (simp add: round_half_even_def)

lemma float64_of_int64_small:
  "\<bar>n\<bar> < 2 ^ 53 \<Longrightarrow> float64_of_int64 n = of_int n"
proof -
  assume "\<bar>n\<bar> < 2 ^ 53"
  then have "float64_of_int64 n = of_int (sgn n * \<bar>n\<bar>)"
    by (simp add: float64_of_int64_def round_half_even_0)
  then show ?thesis by (simp only: sgn_mult_abs)
qed

lemma round_half_even_lower:
  assumes "0 \<le> a"
  shows "a - 2 ^ e < round_half_even e a"
proof -
  have "a = a div 2 ^ e * 2 ^ e + a mod 2 ^ e" by (simp add: div_mult_mod_eq)
  moreover have "a mod 2 ^ e < (2::int) ^ e" by simp
  ultimately have "a - 2 ^ e < a div 2 ^ e * 2 ^ e" by linarith
  moreover have "a div 2 ^ e * 2 ^ e \<le> round_half_even e a"
    by (simp add: round_half_even_def Let_def)
  ultimately show ?thesis by linarith
qed

lemma float64_of_int64_large:
  assumes "2 ^ 53 \<le> \<bar>n\<bar>"
  shows "2 ^ 52 < \<bar>float64_of_int64 n\<bar>"
proof (cases "find (\<lambda>e. \<bar>n\<bar> < 2 ^ (53 + e)) [0, 1, 2, 3, 4, 5, 6, 7, 8, 9, 10, 11::nat]")
  case None
  then have "float64_of_int64 n = of_int n" by (simp add: float64_of_int64_def)
  with assms show ?thesis by (simp flip: of_int_abs)
next
  case (Some e)
  then have "e \<in> set [0, 1, 2, 3, 4, 5, 6, 7, 8, 9, 10, 11::nat]"
    by (metis find_Some_iff nth_mem)
  then have "e \<le> 11" by auto
  then have "(2::int) ^ e \<le> 2 ^ 11" by (intro power_increasing) simp_all
  moreover have "\<bar>n\<bar> - 2 ^ e < round_half_even e \<bar>n\<bar>"
    by (rule round_half_even_lower) simp
  ultimately have r: "2 ^ 52 < round_half_even e \<bar>n\<bar>" using assms by simp
  have "float64_of_int64 n = of_int (sgn n * round_half_even e \<bar>n\<bar>)"
    using Some by (simp add: float64_of_int64_def)
  moreover have "\<bar>sgn n * round_half_even e \<bar>n\<bar>\<bar> = round_half_even e \<bar>n\<bar>"
    using r assms by (simp add: abs_mult abs_sgn_eq)
  ultimately have "\<bar>float64_of_int64 n\<bar> = of_int (round_half_even e \<bar>n\<bar>)"
    by (metis of_int_abs)
  with r show ?thesis by simp
qed

lemma float64_of_int64_eq_1_iff: "float64_of_int64 n = 1 \<longleftrightarrow> n = 1"
proof (cases "\<bar>n\<bar> < 2 ^ 53")
  case True
  then show ?thesis by (simp add: float64_of_int64_small)
next
  case False
  then have "2 ^ 52 < \<bar>float64_of_int64 n\<bar>" by (intro float64_of_int64_large) simp
  moreover from False have "n \<noteq> 1" by auto
  ultimately show ?thesis by auto
qed

lemma float64_of_int64_2_53: "float64_of_int64 (2 ^ 53) = 2 ^ 53"
  by (simp add: float64_of_int64_def round_half_even_def)

lemma float64_of_int64_minus: "float64_of_int64 (- n) = - float64_of_int64 n"
  by (simp add: float64_of_int64_def split: option.splits)

lemma float64_of_int64_exact:
  assumes "\<bar>n\<bar> \<le> 2 ^ 53"
  shows "float64_of_int64 n = of_int n"
proof (cases "\<bar>n\<bar> < 2 ^ 53")
  case True
  then show ?thesis by (rule float64_of_int64_small)
next
  case False
  with assms have "n = 2 ^ 53 \<or> n = - (2 ^ 53)" by linarith
  then show ?thesis
    using float64_of_int64_2_53 float64_of_int64_minus [of "2 ^ 53"] by auto
qed

lemma row_value_exact: "\<bar>v\<bar> \<le> 2 ^ 53 \<Longrightarrow> row_value df c v = v"
proof (cases "of_int \<lfloor>v\<rfloor> = v")
  case False
  then show ?thesis by (simp add: row_value_def)
next
  case v: True
  assume b: "\<bar>v\<bar> \<le> 2 ^ 53"
  from b v have "\<bar>\<lfloor>v\<rfloor>\<bar> \<le> 2 ^ 53"
    by (metis of_int_abs of_int_le_iff of_int_numeral of_int_power)
  then have "float64_of_int64 \<lfloor>v\<rfloor> = of_int \<lfloor>v\<rfloor>" by (rule float64_of_int64_exact)
  with v show ?thesis by (simp add: row_value_def)
qed

lemma row_value_eq_1_iff: "row_value df c v = 1 \<longleftrightarrow> v = 1"
proof (cases "common_dtype df = float64 \<and> map_of (dtypes df) c = Some int64 \<and> of_int \<lfloor>v\<rfloor> = v")
  case True
  then have v: "of_int \<lfloor>v\<rfloor> = v" by simp
  have "row_value df c v = 1 \<longleftrightarrow> \<lfloor>v\<rfloor> = 1"
    using True by (simp add: row_value_def float64_of_int64_eq_1_iff)
  also have "\<dots> \<longleftrightarrow> v = 1" using v by (metis floor_one of_int_1)
  finally show ?thesis .
next
  case False
  then show ?thesis by (auto simp: row_value_def)
qed

lemma row_value_unconverted:
  "common_dtype df = int64 \<or> map_of (dtypes df) c \<noteq> Some int64 \<Longrightarrow> row_value df c v = v"
  by (auto simp: row_value_def)

subsection \<open>The run on the example\<close>

lemma example_data_schema:
  "wf_frame example_data"
  "''eligible'' \<in> set (columns example_data)"
  "''period'' \<in> set (columns example_data)"
  by (simp_all add: wf_frame_def columns_def example_data_def)

lemma example_data_eligible:
  "filter is_eligible (rows example_data) = [hd (rows example_data)]"
  by (simp add: example_data_def is_eligible_def)

lemma trial_data_schema:
  "wf_frame trial_data"
  "set (columns trial_data) =
     {''id'', ''period'', ''treatment'', ''x1'', ''x2'', ''x3'', ''x4'', ''age'', ''age_s'',
      ''outcome'', ''censored'', ''eligible''}"
  "length (rows trial_data) = 10"
  "is_eligible (rows trial_data ! 0)"
  "map_of (rows trial_data ! 0) ''age'' = Some 36"
  by (simp_all add: wf_frame_def columns_def is_eligible_def trial_data_def)

subsection \<open>Step 3: the trial-entry expander\<close>

lemma map_of_row_series:
  "map_of (row_series df r) c = map_option (row_value df c) (map_of r c)"
  by (induction r) (auto simp: row_series_def)

lemma keys_row_series: "map fst (row_series df r) = map fst r"
  by (induction r) (auto simp: row_series_def)

lemma has_column_row_series: "has_column (row_series df r) c = has_column r c"
  by (simp add: has_column_def map_of_row_series)

lemma is_eligible_row_series: "is_eligible (row_series df r) = is_eligible r"
  by (cases "map_of r ''eligible''")
     (simp_all add: is_eligible_def map_of_row_series row_value_eq_1_iff)

lemma filter_eligible_iterrows:
  "filter is_eligible (iterrows df) = map (row_series df) (filter is_eligible (rows df))"
proof -
  have "filter (is_eligible \<circ> row_series df) (rows df) = filter is_eligible (rows df)"
    by (intro filter_cong) (simp_all add: is_eligible_row_series)
  then show ?thesis by (simp add: iterrows_def filter_map)
qed

lemma expand_loop_eq:
  "list_all (\<lambda>r. has_column r ''eligible'' \<and> has_column r ''period'') rs \<Longrightarrow>
   expand_loop rs acc = Inr (acc @ map trial_entry (filter is_eligible rs))"
proof (induction rs arbitrary: acc)
  case Nil
  then show ?case by simp
next
  case (Cons r rs)
  then have el: "row_get r ''eligible'' = Inr (the (map_of r ''eligible''))"
    and pe: "row_get r ''period'' = Inr (the (map_of r ''period''))"
    and rest: "list_all (\<lambda>r. has_column r ''eligible'' \<and> has_column r ''period'') rs"
    by (simp_all add: row_get_has)
  from Cons.prems have "is_eligible r \<longleftrightarrow> the (map_of r ''eligible'') = 1"
    by (auto simp: is_eligible_def has_column_def)
  then show ?case
    using Cons.IH [OF rest] el pe by (simp add: trial_entry_def)
qed

lemma expand_trials_eq:
  assumes "wf_frame df" and "''eligible'' \<in> set (columns df)" and "''period'' \<in> set (columns df)"
  shows "expand_trials df =
           Inr (DataFrame (common_dtype df)
                  (map (trial_entry \<circ> row_series df) (filter is_eligible (rows df))))"
proof -
  have "list_all (\<lambda>r. has_column r ''eligible'' \<and> has_column r ''period'') (iterrows df)"
    using assms
    by (simp add: iterrows_def list_all_iff has_column_row_series wf_frame_has_column)
  then show ?thesis
    by (simp add: expand_trials_def expand_loop_eq filter_eligible_iterrows)
qed

lemma map_of_trial_entry:
  "has_column r ''period'' \<Longrightarrow>
   map_of (trial_entry r) c =
     (if c = ''followup_time'' then Some 0
      else if c = ''trial_period'' then map_of r ''period''
      else map_of r c)"
  by (auto simp: trial_entry_def map_of_row_set has_column_def)

lemma keys_trial_entry:
  "set (map fst (trial_entry r)) = set (map fst r) \<union> {''trial_period'', ''followup_time''}"
  by (auto simp: trial_entry_def keys_row_set)

lemma eligible_row_mem:
  "i < length (filter is_eligible (rows df)) \<Longrightarrow> filter is_eligible (rows df) ! i \<in> set (rows df)"
  by (metis filter_is_subset nth_mem subsetD)

text \<open>
  Claim C1, as amended. On a table that has the columns \<open>eligible\<close> and \<open>period\<close>, the
  expander returns a table with exactly one row per input row whose \<open>eligible\<close> is 1, in
  the order of those rows in the input, so the row count is the number of eligible
  rows. The \<open>i\<close>-th output row holds the fields of the \<open>i\<close>-th eligible row as \<open>iterrows\<close>
  hands them over, with \<open>trial_period\<close> set to the period so handed over and
  \<open>followup_time\<close> set to 0. What \<open>iterrows\<close> hands over is the cell itself, except that
  in a table with a \<open>float64\<close> column an \<open>int64\<close> cell is converted to the nearest
  \<open>float64\<close>: the same number whenever its magnitude is at most \<open>2^53\<close>.
\<close>

theorem expand_trials_one_entry_per_eligible_row:
  assumes "wf_frame df" and "''eligible'' \<in> set (columns df)" and "''period'' \<in> set (columns df)"
  shows "\<exists>out. expand_trials df = Inr out \<and>
           length (rows out) = length (filter is_eligible (rows df)) \<and>
           (\<forall>i < length (rows out).
              map_of (rows out ! i) ''trial_period'' =
                map_option (row_value df ''period'')
                  (map_of (filter is_eligible (rows df) ! i) ''period'') \<and>
              map_of (rows out ! i) ''followup_time'' = Some 0 \<and>
              (\<forall>c. c \<noteq> ''trial_period'' \<and> c \<noteq> ''followup_time'' \<longrightarrow>
                 map_of (rows out ! i) c =
                   map_option (row_value df c) (map_of (filter is_eligible (rows df) ! i) c))) \<and>
           (\<forall>c v. \<bar>v\<bar> \<le> 2 ^ 53 \<longrightarrow> row_value df c v = v) \<and>
           (\<forall>c v. common_dtype df = int64 \<or> map_of (dtypes df) c \<noteq> Some int64 \<longrightarrow>
              row_value df c v = v)"
proof -
  let ?el = "filter is_eligible (rows df)"
  have per: "has_column (row_series df (?el ! i)) ''period''" if "i < length ?el" for i
    using assms(1,3) eligible_row_mem [OF that]
    by (simp add: has_column_row_series wf_frame_has_column)
  have "\<forall>c v. \<bar>v\<bar> \<le> 2 ^ 53 \<longrightarrow> row_value df c v = v"
    by (simp add: row_value_exact)
  moreover have "\<forall>c v. common_dtype df = int64 \<or> map_of (dtypes df) c \<noteq> Some int64 \<longrightarrow>
              row_value df c v = v"
    using row_value_unconverted by blast
  ultimately show ?thesis
    unfolding expand_trials_eq [OF assms]
    by (simp add: rows_DataFrame map_of_trial_entry per map_of_row_series)
qed

theorem expand_trials_one_entry_per_eligible_row_witness:
  "\<exists>out. expand_trials example_data = Inr out \<and> length (rows out) = 1 \<and>
     map_of (rows out ! 0) ''trial_period'' = Some 0 \<and>
     map_of (rows out ! 0) ''followup_time'' = Some 0 \<and>
     map_of (rows out ! 0) ''age'' = Some 36"
proof -
  from expand_trials_one_entry_per_eligible_row [OF example_data_schema]
  obtain out where out: "expand_trials example_data = Inr out"
    and len: "length (rows out) = length (filter is_eligible (rows example_data))"
    and row: "\<forall>i < length (rows out).
       map_of (rows out ! i) ''trial_period'' =
         map_option (row_value example_data ''period'')
           (map_of (filter is_eligible (rows example_data) ! i) ''period'') \<and>
       map_of (rows out ! i) ''followup_time'' = Some 0 \<and>
       (\<forall>c. c \<noteq> ''trial_period'' \<and> c \<noteq> ''followup_time'' \<longrightarrow>
          map_of (rows out ! i) c =
            map_option (row_value example_data c)
              (map_of (filter is_eligible (rows example_data) ! i) c))"
    by blast
  from len have l1: "length (rows out) = 1" by (simp add: example_data_eligible)
  have src: "map_of (filter is_eligible (rows example_data) ! 0) ''period'' = Some 0"
    "map_of (filter is_eligible (rows example_data) ! 0) ''age'' = Some 36"
    by (simp_all add: example_data_eligible) (simp_all add: example_data_def)
  from row l1 have "map_of (rows out ! 0) ''trial_period'' = Some (row_value example_data ''period'' 0)"
    "map_of (rows out ! 0) ''followup_time'' = Some 0"
    "map_of (rows out ! 0) ''age'' = Some (row_value example_data ''age'' 36)"
    by (simp_all add: src)
  then have "map_of (rows out ! 0) ''trial_period'' = Some 0"
    "map_of (rows out ! 0) ''followup_time'' = Some 0"
    "map_of (rows out ! 0) ''age'' = Some 36"
    by (simp_all add: row_value_exact)
  with out l1 show ?thesis by blast
qed

lemma float64_of_big_id: "float64_of_int64 9007199254740993 = 9007199254740992"
  by (simp add: float64_of_int64_def round_half_even_def)

lemma example_big_id_schema:
  "wf_frame example_big_id"
  "''eligible'' \<in> set (columns example_big_id)"
  "''period'' \<in> set (columns example_big_id)"
  by (simp_all add: wf_frame_def columns_def example_big_id_def)

lemma example_big_id_value:
  "common_dtype example_big_id = float64"
  "row_value example_big_id ''id'' 9007199254740993 = 9007199254740992"
  by (simp_all add: row_value_def common_dtype_def float64_of_big_id)
     (simp_all add: example_big_id_def)

lemma example_big_id_eligible:
  "filter is_eligible (rows example_big_id) = [hd (rows example_big_id)]"
  by (simp add: example_big_id_def is_eligible_def)

text \<open>
  Claim C1 as stated has each output row a full copy of its source row's fields. The
  table \<open>example_big_id\<close> has a \<open>float64\<close> column and an eligible row whose \<open>id\<close> is
  \<open>2^53 + 1\<close>; the row the expander returns for it has the \<open>id\<close> \<open>2^53\<close>.
\<close>

theorem expand_trials_copy_counterexample:
  "is_eligible (rows example_big_id ! 0) \<and>
   map_of (rows example_big_id ! 0) ''id'' = Some 9007199254740993 \<and>
   (\<exists>out. expand_trials example_big_id = Inr out \<and> length (rows out) = 1 \<and>
      map_of (rows out ! 0) ''id'' = Some 9007199254740992)"
proof -
  have src: "is_eligible (rows example_big_id ! 0)"
    "map_of (rows example_big_id ! 0) ''id'' = Some 9007199254740993"
    by (simp_all add: example_big_id_def is_eligible_def)
  have "map_of ((trial_entry \<circ> row_series example_big_id) (hd (rows example_big_id))) ''id'' =
        Some 9007199254740992"
  proof -
    have h: "has_column (row_series example_big_id (hd (rows example_big_id))) ''period''"
      by (simp add: has_column_row_series) (simp add: has_column_def example_big_id_def)
    have "map_of (hd (rows example_big_id)) ''id'' = Some 9007199254740993"
      by (simp add: example_big_id_def)
    then show ?thesis
      by (simp add: map_of_trial_entry [OF h] map_of_row_series example_big_id_value)
  qed
  then have "\<exists>out. expand_trials example_big_id = Inr out \<and> length (rows out) = 1 \<and>
      map_of (rows out ! 0) ''id'' = Some 9007199254740992"
    unfolding expand_trials_eq [OF example_big_id_schema]
    by (simp add: rows_DataFrame example_big_id_eligible)
  with src show ?thesis by blast
qed

text \<open>
  Claim C5, as amended. For every eligible input row, every column of the observation
  table (other than the two labels the expander assigns) has in the trial-entry row the
  value \<open>iterrows\<close> hands over for the source row's cell: the cell itself, except that
  in a table with a \<open>float64\<close> column an \<open>int64\<close> cell is converted to the nearest
  \<open>float64\<close>, the same number whenever its magnitude is at most \<open>2^53\<close>. The labels of
  the trial-entry row are those of the table plus \<open>trial_period\<close> and \<open>followup_time\<close>.
\<close>

theorem expand_trials_keeps_observation_columns:
  assumes "wf_frame df" and "''eligible'' \<in> set (columns df)" and "''period'' \<in> set (columns df)"
  shows "\<exists>out. expand_trials df = Inr out \<and>
           (\<forall>i < length (filter is_eligible (rows df)).
              (\<forall>c \<in> set (columns df). c \<noteq> ''trial_period'' \<and> c \<noteq> ''followup_time'' \<longrightarrow>
                 (\<exists>v. map_of (filter is_eligible (rows df) ! i) c = Some v \<and>
                      map_of (rows out ! i) c = Some (row_value df c v))) \<and>
              set (map fst (rows out ! i)) =
                set (columns df) \<union> {''trial_period'', ''followup_time''}) \<and>
           (\<forall>c v. \<bar>v\<bar> \<le> 2 ^ 53 \<longrightarrow> row_value df c v = v) \<and>
           (\<forall>c v. common_dtype df = int64 \<or> map_of (dtypes df) c \<noteq> Some int64 \<longrightarrow>
              row_value df c v = v)"
proof -
  let ?el = "filter is_eligible (rows df)"
  have has: "has_column (?el ! i) c" if "i < length ?el" and "c \<in> set (columns df)" for i c
    using assms(1) that(2) eligible_row_mem [OF that(1)] by (rule wf_frame_has_column)
  have keys: "map fst (?el ! i) = columns df" if "i < length ?el" for i
    using assms(1) eligible_row_mem [OF that] by (rule wf_frame_keys)
  have "\<exists>v. map_of (?el ! i) c = Some v \<and>
          map_of (trial_entry (row_series df (?el ! i))) c = Some (row_value df c v)"
    if "i < length ?el" and "c \<in> set (columns df)" and "c \<noteq> ''trial_period''"
      and "c \<noteq> ''followup_time''" for i c
  proof -
    from has [OF that(1,2)] obtain v where v: "map_of (?el ! i) c = Some v"
      by (auto simp: has_column_def)
    have "has_column (row_series df (?el ! i)) ''period''"
      using has [OF that(1) assms(3)] by (simp add: has_column_row_series)
    from map_of_trial_entry [OF this, of c] that(3,4) v show ?thesis
      by (simp add: map_of_row_series)
  qed
  moreover have "set (map fst (trial_entry (row_series df (?el ! i)))) =
      set (columns df) \<union> {''trial_period'', ''followup_time''}" if "i < length ?el" for i
    using keys [OF that] keys_trial_entry [of "row_series df (?el ! i)"]
    by (simp add: keys_row_series)
  moreover have "\<forall>c v. \<bar>v\<bar> \<le> 2 ^ 53 \<longrightarrow> row_value df c v = v"
    by (simp add: row_value_exact)
  moreover have "\<forall>c v. common_dtype df = int64 \<or> map_of (dtypes df) c \<noteq> Some int64 \<longrightarrow>
              row_value df c v = v"
    using row_value_unconverted by blast
  ultimately show ?thesis
    unfolding expand_trials_eq [OF assms] by (simp add: rows_DataFrame)
qed

theorem expand_trials_keeps_observation_columns_witness:
  "\<exists>out. expand_trials example_data = Inr out \<and>
     map_of (rows out ! 0) ''x2'' = Some (115 / 100) \<and>
     map_of (rows out ! 0) ''eligible'' = Some 1 \<and>
     set (map fst (rows out ! 0)) =
       set (columns example_data) \<union> {''trial_period'', ''followup_time''}"
proof -
  from expand_trials_keeps_observation_columns [OF example_data_schema]
  obtain out where out: "expand_trials example_data = Inr out"
    and row: "\<forall>i < length (filter is_eligible (rows example_data)).
              (\<forall>c \<in> set (columns example_data). c \<noteq> ''trial_period'' \<and> c \<noteq> ''followup_time'' \<longrightarrow>
                 (\<exists>v. map_of (filter is_eligible (rows example_data) ! i) c = Some v \<and>
                      map_of (rows out ! i) c = Some (row_value example_data c v))) \<and>
              set (map fst (rows out ! i)) =
                set (columns example_data) \<union> {''trial_period'', ''followup_time''}"
    by blast
  have 0: "0 < length (filter is_eligible (rows example_data))"
    by (simp add: example_data_eligible)
  from row 0 have a: "\<forall>c \<in> set (columns example_data). c \<noteq> ''trial_period'' \<and> c \<noteq> ''followup_time'' \<longrightarrow>
                 (\<exists>v. map_of (filter is_eligible (rows example_data) ! 0) c = Some v \<and>
                      map_of (rows out ! 0) c = Some (row_value example_data c v))"
    and b: "set (map fst (rows out ! 0)) =
                set (columns example_data) \<union> {''trial_period'', ''followup_time''}"
    by blast+
  have c: "''x2'' \<in> set (columns example_data)" "''eligible'' \<in> set (columns example_data)"
    by (simp_all add: columns_def example_data_def)
  from a c(1) obtain v where "map_of (filter is_eligible (rows example_data) ! 0) ''x2'' = Some v"
    "map_of (rows out ! 0) ''x2'' = Some (row_value example_data ''x2'' v)" by fastforce
  moreover from this(1) have "v = 115 / 100"
    by (simp add: example_data_eligible) (simp add: example_data_def)
  ultimately have x2: "map_of (rows out ! 0) ''x2'' = Some (115 / 100)"
    by (simp add: row_value_exact)
  from a c(2) obtain w where "map_of (filter is_eligible (rows example_data) ! 0) ''eligible'' = Some w"
    "map_of (rows out ! 0) ''eligible'' = Some (row_value example_data ''eligible'' w)" by fastforce
  moreover from this(1) have "w = 1"
    by (simp add: example_data_eligible) (simp add: example_data_def)
  ultimately have el: "map_of (rows out ! 0) ''eligible'' = Some 1"
    by (simp add: row_value_exact)
  from out b x2 el show ?thesis by blast
qed

text \<open>
  Claim C5 as stated has every observation column unchanged in the trial-entry row. In
  \<open>example_big_id\<close> the column \<open>id\<close> holds \<open>2^53 + 1\<close> in the eligible row, and \<open>2^53\<close>
  in its trial-entry row.
\<close>

theorem expand_trials_column_changed_counterexample:
  "''id'' \<in> set (columns example_big_id) \<and>
   map_of (filter is_eligible (rows example_big_id) ! 0) ''id'' = Some 9007199254740993 \<and>
   (\<exists>out. expand_trials example_big_id = Inr out \<and>
      map_of (rows out ! 0) ''id'' = Some 9007199254740992) \<and>
   (9007199254740992::real) \<noteq> 9007199254740993"
proof -
  have src: "''id'' \<in> set (columns example_big_id)"
    "map_of (filter is_eligible (rows example_big_id) ! 0) ''id'' = Some 9007199254740993"
    by (simp_all add: example_big_id_eligible) (simp_all add: columns_def example_big_id_def)
  have h: "has_column (row_series example_big_id (hd (rows example_big_id))) ''period''"
    by (simp add: has_column_row_series) (simp add: has_column_def example_big_id_def)
  have "map_of (hd (rows example_big_id)) ''id'' = Some 9007199254740993"
    by (simp add: example_big_id_def)
  then have "map_of ((trial_entry \<circ> row_series example_big_id) (hd (rows example_big_id))) ''id'' =
        Some 9007199254740992"
    by (simp add: map_of_trial_entry [OF h] map_of_row_series example_big_id_value)
  then have "\<exists>out. expand_trials example_big_id = Inr out \<and>
      map_of (rows out ! 0) ''id'' = Some 9007199254740992"
    unfolding expand_trials_eq [OF example_big_id_schema]
    by (simp add: rows_DataFrame example_big_id_eligible)
  with src show ?thesis by simp
qed

lemma expand_loop_none_eligible:
  "\<forall>r \<in> set rs. \<exists>v. map_of r ''eligible'' = Some v \<and> v \<noteq> 1 \<Longrightarrow> expand_loop rs acc = Inr acc"
  by (induction rs arbitrary: acc) (auto simp: row_get_def)

lemma iterrows_none_eligible:
  assumes "\<forall>r \<in> set (rows df). \<exists>v. map_of r ''eligible'' = Some v \<and> v \<noteq> 1"
  shows "\<forall>r \<in> set (iterrows df). \<exists>v. map_of r ''eligible'' = Some v \<and> v \<noteq> 1"
  using assms by (auto simp: iterrows_def map_of_row_series row_value_eq_1_iff)

lemma expand_loop_followup:
  assumes "expand_loop rs acc = Inr out"
    and "\<forall>r \<in> set acc. map_of r ''followup_time'' = Some 0"
  shows "\<forall>r \<in> set out. map_of r ''followup_time'' = Some 0"
  using assms
proof (induction rs arbitrary: acc)
  case Nil
  then show ?case by simp
next
  case (Cons r rs)
  show ?case
  proof (cases "row_get r ''eligible''")
    case (Inl e)
    with Cons.prems show ?thesis by simp
  next
    case el: (Inr v)
    show ?thesis
    proof (cases "v = 1")
      case False
      with el Cons.prems have "expand_loop rs acc = Inr out" by simp
      from Cons.IH [OF this Cons.prems(2)] show ?thesis .
    next
      case True
      show ?thesis
      proof (cases "row_get r ''period''")
        case (Inl e)
        with el True Cons.prems show ?thesis by simp
      next
        case (Inr p)
        let ?acc = "acc @ [row_set (row_set r ''trial_period'' p) ''followup_time'' 0]"
        from el True Inr Cons.prems have "expand_loop rs ?acc = Inr out" by simp
        moreover have "\<forall>r \<in> set ?acc. map_of r ''followup_time'' = Some 0"
          using Cons.prems(2) by (simp add: map_of_row_set)
        ultimately show ?thesis by (rule Cons.IH)
      qed
    qed
  qed
qed

lemma expand_trials_followup:
  assumes "expand_trials df = Inr ed"
  shows "\<forall>r \<in> set (rows ed). map_of r ''followup_time'' = Some 0"
proof -
  from assms obtain rs where rs: "expand_loop (iterrows df) [] = Inr rs"
    and ed: "ed = DataFrame (common_dtype df) rs"
    by (auto simp: expand_trials_def split: sum.splits)
  from expand_loop_followup [OF rs] show ?thesis by (simp add: ed rows_DataFrame)
qed

lemma expand_trials_columns:
  assumes "wf_frame df" and "''eligible'' \<in> set (columns df)" and "''period'' \<in> set (columns df)"
    and "filter is_eligible (rows df) \<noteq> []"
  shows "\<exists>out. expand_trials df = Inr out \<and> rows out \<noteq> [] \<and>
           set (columns out) = set (columns df) \<union> {''trial_period'', ''followup_time''}"
proof -
  from assms(4) obtain r rs where el: "filter is_eligible (rows df) = r # rs"
    by (cases "filter is_eligible (rows df)") auto
  then have "r \<in> set (rows df)" by (metis filter_is_subset list.set_intros(1) subsetD)
  with assms(1) have "map fst r = columns df" by (rule wf_frame_keys)
  then have "set (map fst (trial_entry (row_series df r))) =
      set (columns df) \<union> {''trial_period'', ''followup_time''}"
    using keys_trial_entry [of "row_series df r"] by (simp add: keys_row_series)
  then show ?thesis
    unfolding expand_trials_eq [OF assms(1-3)] by (simp add: columns_DataFrame rows_DataFrame el)
qed

subsection \<open>Step 2: the censoring weights\<close>

lemma logistic_bounds: "0 < logistic z \<and> logistic z < 1"
proof -
  have "0 < exp (- z)" by simp
  then show ?thesis by (simp add: logistic_def add_pos_pos)
qed

lemma logistic_minus_100: "logistic (- 100) < 1 / 100"
proof -
  have "(1::real) + 100 \<le> exp 100" by (rule exp_ge_add_one_self)
  then have "(102::real) \<le> 1 + exp 100" by simp
  then have "1 / (1 + exp (100::real)) \<le> 1 / 102"
    by (intro divide_left_mono) simp_all
  then show ?thesis by (simp add: logistic_def)
qed

lemma predict_Inr:
  assumes "predict m d = Inr ps"
  shows "length ps = length (rows d)" and "\<forall>p \<in> set ps. 0 < p \<and> p < 1"
proof -
  from assms obtain x2 x1 where x2: "get_column d ''x2'' = Inr x2" and x1: "get_column d ''x1'' = Inr x1"
    and ps: "ps = map (\<lambda>(a, b). logistic (coef_Intercept m + coef_x2 m * a + coef_x1 m * b)) (zip x2 x1)"
    by (auto simp: predict_def formula_var_def bind_err_Inr_iff split: sum.splits)
  from x2 x1 ps show "length ps = length (rows d)"
    by (simp add: get_column_length)
  from ps show "\<forall>p \<in> set ps. 0 < p \<and> p < 1"
    by (auto simp: logistic_bounds)
qed

lemma predict_flat:
  assumes "predict m d = Inr ps" and "coef_x2 m = 0" and "coef_x1 m = 0"
  shows "\<forall>p \<in> set ps. p = logistic (coef_Intercept m)"
  using assms by (auto simp: predict_def formula_var_def bind_err_Inr_iff split: sum.splits)

lemma predict_returns:
  assumes "''x2'' \<in> set (columns d)" and "''x1'' \<in> set (columns d)"
  shows "\<exists>ps. predict m d = Inr ps"
  using assms by (simp add: predict_def formula_var_def get_column_def)

lemma attach_weights_eq:
  assumes "predict m d = Inr ps"
  shows "attach_weights m d =
           Inr (set_column (set_column (set_column d ''p_uncensored'' float64 ps)
                  ''p_uncensored'' float64 (clip_lower (1 / 100) ps))
                  ''ipcw'' float64 (map (\<lambda>x. 1 / x) (clip_lower (1 / 100) ps)))"
proof -
  have len: "length ps = length (rows d)" using assms by (rule predict_Inr)
  have g2: "get_column (set_column d ''p_uncensored'' float64 ps) ''p_uncensored'' = Inr ps"
    using len by (rule get_set_column_same)
  have len2: "length (clip_lower (1 / 100) ps) = length (rows (set_column d ''p_uncensored'' float64 ps))"
    using len by (simp add: clip_lower_def length_rows_set_column)
  have g3: "get_column (set_column (set_column d ''p_uncensored'' float64 ps) ''p_uncensored'' float64
              (clip_lower (1 / 100) ps)) ''p_uncensored'' = Inr (clip_lower (1 / 100) ps)"
    using len2 by (rule get_set_column_same)
  show ?thesis
    by (simp add: attach_weights_def assms g2 g3 Let_def)
qed

lemma attach_weights_length:
  assumes "predict m d = Inr ps" and "attach_weights m d = Inr out"
  shows "length (rows out) = length (rows d)"
proof -
  have len: "length ps = length (rows d)" using assms(1) by (rule predict_Inr)
  have "out = set_column (set_column (set_column d ''p_uncensored'' float64 ps)
                  ''p_uncensored'' float64 (clip_lower (1 / 100) ps))
                  ''ipcw'' float64 (map (\<lambda>x. 1 / x) (clip_lower (1 / 100) ps))"
    using attach_weights_eq [OF assms(1)] assms(2) by simp
  then show ?thesis
    using len by (simp add: length_rows_set_column clip_lower_def)
qed

lemma attach_weights_row:
  assumes "predict m d = Inr ps" and "attach_weights m d = Inr out" and "i < length (rows d)"
  shows "map_of (rows out ! i) c =
           (if c = ''ipcw'' then Some (1 / max (ps ! i) (1 / 100))
            else if c = ''p_uncensored'' then Some (max (ps ! i) (1 / 100))
            else map_of (rows d ! i) c)"
proof -
  have len: "length ps = length (rows d)" using assms(1) by (rule predict_Inr)
  have out: "out = set_column (set_column (set_column d ''p_uncensored'' float64 ps)
                  ''p_uncensored'' float64 (clip_lower (1 / 100) ps))
                  ''ipcw'' float64 (map (\<lambda>x. 1 / x) (clip_lower (1 / 100) ps))"
    using attach_weights_eq [OF assms(1)] assms(2) by simp
  show ?thesis
    using len assms(3)
    by (simp add: out length_rows_set_column nth_rows_set_column clip_lower_def map_of_row_set)
qed

lemma add_uncensored_row:
  assumes "add_uncensored d = Inr d1"
  shows "length (rows d1) = length (rows d)"
    and "i < length (rows d) \<Longrightarrow> c \<noteq> ''uncensored'' \<Longrightarrow> map_of (rows d1 ! i) c = map_of (rows d ! i) c"
    and "i < length (rows d) \<Longrightarrow>
         map_of (rows d1 ! i) ''uncensored'' = Some (1 - the (map_of (rows d ! i) ''censored''))"
proof -
  from assms obtain cs dt where cs: "get_column d ''censored'' = Inr cs"
    and d1: "d1 = set_column d ''uncensored'' dt (map (\<lambda>c. 1 - c) cs)"
    by (auto simp: add_uncensored_def bind_err_Inr_iff)
  have len: "length (map (\<lambda>c. 1 - c) cs) = length (rows d)"
    using cs by (simp add: get_column_length)
  show "length (rows d1) = length (rows d)"
    using len by (simp add: d1 length_rows_set_column)
  show "i < length (rows d) \<Longrightarrow> c \<noteq> ''uncensored'' \<Longrightarrow> map_of (rows d1 ! i) c = map_of (rows d ! i) c"
    using len by (simp add: d1 nth_rows_set_column map_of_row_set)
  show "i < length (rows d) \<Longrightarrow>
         map_of (rows d1 ! i) ''uncensored'' = Some (1 - the (map_of (rows d ! i) ''censored''))"
    using len cs by (simp add: d1 nth_rows_set_column map_of_row_set get_column_nth)
qed

lemma add_uncensored_returns:
  assumes "''censored'' \<in> set (columns d)"
  shows "\<exists>d1. add_uncensored d = Inr d1 \<and> set (columns d1) = insert ''uncensored'' (set (columns d))"
proof -
  from column_dtype_returns [OF assms] obtain dt where "column_dtype d ''censored'' = Inr dt" ..
  with assms show ?thesis
    by (simp add: add_uncensored_def get_column_def columns_set_column)
qed

lemma censoring_weights_Inr:
  assumes "censoring_weights fit d = Inr out"
  obtains d1 m ps where "add_uncensored d = Inr d1" and "fit d1 = Inr m"
    and "predict m d1 = Inr ps" and "attach_weights m d1 = Inr out"
proof -
  from assms obtain d1 m where a: "add_uncensored d = Inr d1" "fit d1 = Inr m" "attach_weights m d1 = Inr out"
    by (auto simp: censoring_weights_def bind_err_Inr_iff)
  from a(3) obtain ps where "predict m d1 = Inr ps"
    by (auto simp: attach_weights_def bind_err_Inr_iff)
  with a that show thesis by blast
qed

lemma censoring_weights_returns:
  assumes "''censored'' \<in> set (columns d)" and "''x2'' \<in> set (columns d)"
    and "''x1'' \<in> set (columns d)"
    and "\<And>d1. add_uncensored d = Inr d1 \<Longrightarrow> \<exists>m. fit d1 = Inr m"
  shows "\<exists>out. censoring_weights fit d = Inr out \<and> length (rows out) = length (rows d)"
proof -
  from add_uncensored_returns [OF assms(1)] obtain d1 where d1: "add_uncensored d = Inr d1"
    and cols: "set (columns d1) = insert ''uncensored'' (set (columns d))" by blast
  from assms(4) [OF d1] obtain m where m: "fit d1 = Inr m" by blast
  from cols assms(2,3) have "''x2'' \<in> set (columns d1)" "''x1'' \<in> set (columns d1)" by simp_all
  from predict_returns [OF this] obtain ps where ps: "predict m d1 = Inr ps" by blast
  have out: "censoring_weights fit d = attach_weights m d1"
    by (simp add: censoring_weights_def d1 m)
  obtain out where o: "attach_weights m d1 = Inr out"
    using attach_weights_eq [OF ps] by blast
  have "length (rows out) = length (rows d)"
    using attach_weights_length [OF ps o] add_uncensored_row(1) [OF d1] by simp
  with out o show ?thesis by simp
qed

lemma censoring_weights_frame:
  assumes "censoring_weights fit d = Inr out"
  shows "length (rows out) = length (rows d)"
    and "i < length (rows d) \<Longrightarrow> c \<noteq> ''uncensored'' \<Longrightarrow> c \<noteq> ''p_uncensored'' \<Longrightarrow>
         c \<noteq> ''ipcw'' \<Longrightarrow> map_of (rows out ! i) c = map_of (rows d ! i) c"
proof -
  from assms obtain d1 m ps where d1: "add_uncensored d = Inr d1"
    and ps: "predict m d1 = Inr ps" and out: "attach_weights m d1 = Inr out"
    by (rule censoring_weights_Inr)
  have l1: "length (rows d1) = length (rows d)" using d1 by (rule add_uncensored_row(1))
  show "length (rows out) = length (rows d)"
    using attach_weights_length [OF ps out] l1 by simp
  show "map_of (rows out ! i) c = map_of (rows d ! i) c"
    if "i < length (rows d)" "c \<noteq> ''uncensored''" "c \<noteq> ''p_uncensored''" "c \<noteq> ''ipcw''"
    using attach_weights_row [OF ps out, of i c] add_uncensored_row(2) [OF d1, of i c] that l1
    by simp
qed

lemma censoring_weights_row_bounds:
  assumes "censoring_weights fit d = Inr out" and "r \<in> set (rows out)"
  shows "\<exists>p. map_of r ''p_uncensored'' = Some p \<and> 1 / 100 \<le> p \<and> p \<le> 1 \<and>
             map_of r ''ipcw'' = Some (1 / p) \<and> 1 \<le> 1 / p \<and> 1 / p \<le> 100"
proof -
  from assms(1) obtain d1 m ps where d1: "add_uncensored d = Inr d1"
    and ps: "predict m d1 = Inr ps" and out: "attach_weights m d1 = Inr out"
    by (rule censoring_weights_Inr)
  from assms(2) obtain i where i: "i < length (rows out)" and r: "r = rows out ! i"
    by (auto simp: in_set_conv_nth)
  have len: "length (rows out) = length (rows d1)" "length ps = length (rows d1)"
    using attach_weights_length [OF ps out] predict_Inr(1) [OF ps] by simp_all
  from i len have i1: "i < length (rows d1)" by simp
  have "ps ! i \<in> set ps" using i len by simp
  with predict_Inr(2) [OF ps] have b: "0 < ps ! i" "ps ! i < 1" by auto
  let ?p = "max (ps ! i) (1 / 100)"
  have "map_of r ''p_uncensored'' = Some ?p" "map_of r ''ipcw'' = Some (1 / ?p)"
    using attach_weights_row [OF ps out i1] by (simp_all add: r)
  moreover have "1 / 100 \<le> ?p" "?p \<le> 1" using b by simp_all
  moreover from this have "1 \<le> 1 / ?p" "1 / ?p \<le> 100"
    by (simp_all add: field_simps)
  ultimately show ?thesis by blast
qed

text \<open>
  Claim C3, as amended. After the censoring-weight step, every row of the table has a
  \<open>p_uncensored\<close> in \<open>[0.01, 1]\<close> and an \<open>ipcw\<close> that is \<open>1 / p_uncensored\<close>, at least 1
  and, by the floor of the clipping, at most 100.
\<close>

theorem censoring_weights_bounds:
  assumes "censoring_weights fit d = Inr out" and "r \<in> set (rows out)"
  shows "\<exists>p. map_of r ''p_uncensored'' = Some p \<and> 1 / 100 \<le> p \<and> p \<le> 1 \<and>
             map_of r ''ipcw'' = Some (1 / p) \<and> 1 \<le> 1 / p \<and> 1 / p \<le> 100"
  using assms by (rule censoring_weights_row_bounds)

theorem censoring_weights_bounds_witness:
  "\<exists>out. censoring_weights flat_fit example_data = Inr out \<and>
     (\<exists>p. map_of (rows out ! 0) ''p_uncensored'' = Some p \<and> 1 / 100 \<le> p \<and> p \<le> 1 \<and>
          map_of (rows out ! 0) ''ipcw'' = Some (1 / p) \<and> 1 \<le> 1 / p \<and> 1 / p \<le> 100)"
proof -
  have "\<exists>out. censoring_weights flat_fit example_data = Inr out \<and>
          length (rows out) = length (rows example_data)"
    by (rule censoring_weights_returns) (simp_all add: columns_def example_data_def flat_fit_def)
  then obtain out where out: "censoring_weights flat_fit example_data = Inr out"
    and len: "length (rows out) = 2" by (auto simp: example_data_def)
  from len have "rows out ! 0 \<in> set (rows out)" by simp
  from censoring_weights_bounds [OF out this] out show ?thesis by blast
qed

text \<open>
  Claim C3 as stated also calls the weight unbounded above. No run of the step, with
  whatever coefficients the fit returns, yields a weight above 100.
\<close>

theorem censoring_weight_unbounded_counterexample:
  "\<not> (\<forall>B. \<exists>fit d out r w. censoring_weights fit d = Inr out \<and> r \<in> set (rows out) \<and>
        map_of r ''ipcw'' = Some w \<and> B < w)"
proof
  assume "\<forall>B. \<exists>fit d out r w. censoring_weights fit d = Inr out \<and> r \<in> set (rows out) \<and>
        map_of r ''ipcw'' = Some w \<and> B < w"
  then obtain fit d out r w where run: "censoring_weights fit d = Inr out" "r \<in> set (rows out)"
    and w: "map_of r ''ipcw'' = Some w" "100 < w"
    by blast
  from censoring_weights_row_bounds [OF run] w show False by auto
qed

text \<open>
  Claim C4. A row whose predicted probability of being uncensored is below 0.01 gets
  \<open>p_uncensored = 0.01\<close> by the clipping, and its \<open>ipcw\<close> is exactly 100.
\<close>

theorem clipped_probability_weight_100:
  assumes "add_uncensored d = Inr d1" and "fit d1 = Inr m" and "predict m d1 = Inr ps"
    and "i < length ps" and "ps ! i < 1 / 100"
  shows "\<exists>out. censoring_weights fit d = Inr out \<and>
           map_of (rows out ! i) ''p_uncensored'' = Some (1 / 100) \<and>
           map_of (rows out ! i) ''ipcw'' = Some 100"
proof -
  obtain out where o: "attach_weights m d1 = Inr out"
    using attach_weights_eq [OF assms(3)] by blast
  have i: "i < length (rows d1)" using predict_Inr(1) [OF assms(3)] assms(4) by simp
  have "max (ps ! i) (1 / 100) = 1 / 100" using assms(5) by simp
  then have "map_of (rows out ! i) ''p_uncensored'' = Some (1 / 100)"
    "map_of (rows out ! i) ''ipcw'' = Some 100"
    using attach_weights_row [OF assms(3) o i] by simp_all
  moreover have "censoring_weights fit d = Inr out"
    by (simp add: censoring_weights_def assms(1,2) o)
  ultimately show ?thesis by blast
qed

theorem clipped_probability_weight_100_witness:
  "logistic (- 100) < 1 / 100 \<and>
   (\<exists>out. censoring_weights steep_fit example_data = Inr out \<and>
      map_of (rows out ! 0) ''p_uncensored'' = Some (1 / 100) \<and>
      map_of (rows out ! 0) ''ipcw'' = Some 100)"
proof -
  obtain d1 where d1: "add_uncensored example_data = Inr d1"
    and cols: "set (columns d1) = insert ''uncensored'' (set (columns example_data))"
    using add_uncensored_returns [of example_data] by (auto simp: columns_def example_data_def)
  let ?m = "\<lparr>coef_Intercept = - 100, coef_x2 = 0, coef_x1 = 0\<rparr>"
  have m: "steep_fit d1 = Inr ?m" by (simp add: steep_fit_def)
  have len: "length (rows d1) = 2"
    using add_uncensored_row(1) [OF d1] by (simp add: example_data_def)
  from cols have "''x2'' \<in> set (columns d1)" "''x1'' \<in> set (columns d1)"
    by (simp_all add: columns_def example_data_def)
  from predict_returns [OF this] obtain ps where ps: "predict ?m d1 = Inr ps" by blast
  have lps: "length ps = 2" using predict_Inr(1) [OF ps] len by simp
  then have "ps ! 0 \<in> set ps" by simp
  then have "ps ! 0 = logistic (- 100)"
    using predict_flat [OF ps] by auto
  then have "0 < length ps" "ps ! 0 < 1 / 100"
    using lps logistic_minus_100 by simp_all
  from clipped_probability_weight_100 [of example_data d1 steep_fit ?m ps 0, OF d1 m ps this] logistic_minus_100
  show ?thesis by simp
qed

lemma censoring_weights_shape:
  assumes "censoring_weights fit d = Inr out"
  shows "set (columns out) = set (columns d) \<union> {''uncensored'', ''p_uncensored'', ''ipcw''}"
    and "wf_frame d \<Longrightarrow> wf_frame out"
proof -
  from assms obtain d1 m ps where d1: "add_uncensored d = Inr d1"
    and ps: "predict m d1 = Inr ps" and out: "attach_weights m d1 = Inr out"
    by (rule censoring_weights_Inr)
  from d1 obtain cs dt where d1': "d1 = set_column d ''uncensored'' dt (map (\<lambda>c. 1 - c) cs)"
    by (auto simp: add_uncensored_def bind_err_Inr_iff)
  have out': "out = set_column (set_column (set_column d1 ''p_uncensored'' float64 ps)
                  ''p_uncensored'' float64 (clip_lower (1 / 100) ps))
                  ''ipcw'' float64 (map (\<lambda>x. 1 / x) (clip_lower (1 / 100) ps))"
    using attach_weights_eq [OF ps] out by simp
  show "set (columns out) = set (columns d) \<union> {''uncensored'', ''p_uncensored'', ''ipcw''}"
    by (auto simp: out' d1' columns_set_column)
  show "wf_frame out" if "wf_frame d"
    using that by (simp add: out' d1' wf_set_column)
qed

subsection \<open>Step 4: winsorized weights and the design matrix\<close>

lemma winsorize_length: "length (winsorize ws) = length ws"
  by (simp add: winsorize_def)

lemma winsorize_nth:
  "quantile ws (99 / 100) = Some q \<Longrightarrow> i < length ws \<Longrightarrow> winsorize ws ! i = min (ws ! i) q"
  by (simp add: winsorize_def min_cap_def)

lemma winsorize_Some:
  "quantile ws (99 / 100) = Some q \<Longrightarrow> winsorize ws = map (\<lambda>w. min w q) ws"
  by (simp add: winsorize_def min_cap_def)

lemma quantile_le_bound:
  assumes "quantile xs q = Some v" and "\<forall>x \<in> set xs. x \<le> b" and "0 \<le> q" and "q \<le> 1"
  shows "v \<le> b"
proof -
  from assms(1) have ne: "xs \<noteq> []" by (auto simp: quantile_def split: if_splits)
  define n where "n = length xs"
  define h where "h = real (n - 1) * q"
  define s where "s = sort xs"
  define lo where "lo = nat \<lfloor>h\<rfloor>"
  define hi where "hi = nat \<lceil>h\<rceil>"
  have v: "v = s ! lo + (s ! hi - s ! lo) * (h - real lo)"
    using assms(1) ne by (simp add: quantile_def Let_def n_def h_def s_def lo_def hi_def)
  have h0: "0 \<le> h" using assms(3) by (simp add: h_def)
  have h1: "h \<le> real (n - 1)" using assms(3,4) by (simp add: h_def mult_left_le)
  have npos: "0 < n" using ne by (simp add: n_def)
  have "\<lceil>h\<rceil> \<le> int (n - 1)" using h1 by (simp add: ceiling_le_iff)
  then have hi: "hi < n" using npos by (simp add: hi_def)
  have lohi: "lo \<le> hi" unfolding lo_def hi_def by (intro nat_mono floor_le_ceiling)
  have "real lo = of_int \<lfloor>h\<rfloor>" using h0 by (simp add: lo_def)
  then have f: "0 \<le> h - real lo" "h - real lo \<le> 1" by linarith+
  have "sorted s" by (simp add: s_def)
  then have le: "s ! lo \<le> s ! hi" using lohi hi by (simp add: sorted_nth_mono s_def n_def)
  have "s ! hi \<in> set xs" using hi by (metis n_def s_def length_sort nth_mem set_sort)
  then have b: "s ! hi \<le> b" using assms(2) by blast
  have "(s ! hi - s ! lo) * (h - real lo) \<le> (s ! hi - s ! lo) * 1"
    using le f by (intro mult_left_mono) simp_all
  then show ?thesis using b by (simp add: v)
qed

lemma msm_columns_empty: "msm_columns (DataFrame dt []) = Inl (KeyError ''treatment'')"
  by (simp add: msm_columns_def DataFrame_def get_column_def columns_def)

lemma msm_columns_Inr:
  assumes "msm_columns ed = Inr out"
  obtains t ws dt dw where "get_column ed ''treatment'' = Inr t"
    and "get_column ed ''ipcw'' = Inr ws"
    and "out = set_column (set_column ed ''assigned_treatment'' dt t) ''ipcw_winsor'' dw
                 (winsorize ws)"
proof -
  from assms obtain t dt where t: "get_column ed ''treatment'' = Inr t"
    and dt: "column_dtype ed ''treatment'' = Inr dt"
    by (auto simp: msm_columns_def bind_err_Inr_iff)
  have lt: "length t = length (rows ed)" using t by (rule get_column_length)
  have g: "get_column (set_column ed ''assigned_treatment'' dt t) ''ipcw'' = get_column ed ''ipcw''"
    using lt by (rule get_set_column_other) simp
  from assms t dt g obtain ws dw where ws: "get_column ed ''ipcw'' = Inr ws"
    and out: "out = set_column (set_column ed ''assigned_treatment'' dt t) ''ipcw_winsor'' dw
                      (winsorize ws)"
    by (auto simp: msm_columns_def bind_err_Inr_iff Let_def)
  with t that show thesis by blast
qed

lemma msm_columns_length:
  assumes "msm_columns ed = Inr out"
  shows "length (rows out) = length (rows ed)"
proof -
  from assms obtain t ws dt dw where t: "get_column ed ''treatment'' = Inr t"
    and ws: "get_column ed ''ipcw'' = Inr ws"
    and out: "out = set_column (set_column ed ''assigned_treatment'' dt t) ''ipcw_winsor'' dw
                      (winsorize ws)"
    by (rule msm_columns_Inr)
  from t ws show ?thesis
    by (simp add: out length_rows_set_column winsorize_length get_column_length)
qed

lemma msm_columns_row:
  assumes "msm_columns ed = Inr out" and "get_column ed ''ipcw'' = Inr ws" and "i < length (rows ed)"
  shows "map_of (rows out ! i) c =
           (if c = ''ipcw_winsor'' then Some (winsorize ws ! i)
            else if c = ''assigned_treatment'' then Some (the (map_of (rows ed ! i) ''treatment''))
            else map_of (rows ed ! i) c)"
proof -
  from assms(1) obtain t ws' dt dw where t: "get_column ed ''treatment'' = Inr t"
    and ws': "get_column ed ''ipcw'' = Inr ws'"
    and out: "out = set_column (set_column ed ''assigned_treatment'' dt t) ''ipcw_winsor'' dw
                      (winsorize ws')"
    by (rule msm_columns_Inr)
  from ws' assms(2) have [simp]: "ws' = ws" by simp
  from t assms(2,3) show ?thesis
    by (simp add: out length_rows_set_column nth_rows_set_column winsorize_length
        get_column_length map_of_row_set get_column_nth)
qed

lemma msm_columns_frame:
  assumes "msm_columns ed = Inr out" and "i < length (rows ed)"
    and "c \<noteq> ''assigned_treatment''" and "c \<noteq> ''ipcw_winsor''"
  shows "map_of (rows out ! i) c = map_of (rows ed ! i) c"
proof -
  from assms(1) obtain t ws dt dw where ws: "get_column ed ''ipcw'' = Inr ws"
    by (rule msm_columns_Inr)
  from msm_columns_row [OF assms(1) ws assms(2), of c] assms(3,4) show ?thesis by simp
qed

lemma msm_columns_weights:
  assumes "msm_columns ed = Inr out"
  shows "\<exists>ws. get_column ed ''ipcw'' = Inr ws \<and> get_column out ''ipcw_winsor'' = Inr (winsorize ws)"
proof -
  from assms obtain t ws dt dw where t: "get_column ed ''treatment'' = Inr t"
    and ws: "get_column ed ''ipcw'' = Inr ws"
    and out: "out = set_column (set_column ed ''assigned_treatment'' dt t) ''ipcw_winsor'' dw
                      (winsorize ws)"
    by (rule msm_columns_Inr)
  have "length (winsorize ws) = length (rows (set_column ed ''assigned_treatment'' dt t))"
    using t ws by (simp add: winsorize_length length_rows_set_column get_column_length)
  then have "get_column out ''ipcw_winsor'' = Inr (winsorize ws)"
    unfolding out by (rule get_set_column_same)
  with ws show ?thesis by blast
qed

lemma msm_columns_columns:
  assumes "msm_columns ed = Inr out"
  shows "set (columns out) = set (columns ed) \<union> {''assigned_treatment'', ''ipcw_winsor''}"
proof -
  from assms obtain t ws dt dw
    where "out = set_column (set_column ed ''assigned_treatment'' dt t) ''ipcw_winsor'' dw
                   (winsorize ws)"
    by (rule msm_columns_Inr)
  then show ?thesis by (auto simp: columns_set_column)
qed

lemma msm_columns_returns:
  assumes "''treatment'' \<in> set (columns ed)" and "''ipcw'' \<in> set (columns ed)"
  shows "\<exists>out. msm_columns ed = Inr out"
proof -
  from column_dtype_returns [OF assms(1)] obtain dt
    where dt: "column_dtype ed ''treatment'' = Inr dt" ..
  let ?ed1 = "set_column ed ''assigned_treatment'' dt (map (\<lambda>r. the (map_of r ''treatment'')) (rows ed))"
  have "''ipcw'' \<in> set (columns ?ed1)" using assms(2) by (simp add: columns_set_column)
  from column_dtype_returns [OF this] obtain dw where dw: "column_dtype ?ed1 ''ipcw'' = Inr dw" ..
  show ?thesis
    using assms dt dw by (simp add: msm_columns_def get_column_def columns_set_column Let_def)
qed

lemma design_matrices_followup:
  assumes "design_matrices df = Inr d"
  shows "\<exists>fu. get_column df ''followup_time'' = Inr fu \<and>
           map_of (exog d) ''followup_time'' = Some fu \<and>
           map_of (exog d) ''np.power(followup_time, 2)'' = Some (map (\<lambda>t. t ^ 2) fu)"
  using assms by (auto simp: design_matrices_def bind_err_Inr_iff formula_var_Inr)

text \<open>
  Claim C2, as amended. For every row of the expanded table, \<open>ipcw_winsor\<close> is at most
  \<open>q99\<close>, the 99th percentile of \<open>ipcw\<close> over that table, and equals \<open>ipcw\<close> whenever
  \<open>ipcw\<close> is at most \<open>q99\<close>. Clipping the winsorized column again at the same \<open>q99\<close>
  changes no value, and the percentile recomputed on the winsorized column is never
  above \<open>q99\<close>.
\<close>

theorem winsorized_weight_capped:
  assumes "wf_frame ed" and "msm_columns ed = Inr out" and "get_column ed ''ipcw'' = Inr ipcw"
    and "quantile ipcw (99 / 100) = Some q99"
  shows "(\<forall>i < length (rows out).
            \<exists>w ww. map_of (rows out ! i) ''ipcw'' = Some w \<and>
                   map_of (rows out ! i) ''ipcw_winsor'' = Some ww \<and>
                   ww \<le> q99 \<and> (w \<le> q99 \<longrightarrow> ww = w)) \<and>
         map (\<lambda>w. min w q99) (winsorize ipcw) = winsorize ipcw \<and>
         (\<forall>q. quantile (winsorize ipcw) (99 / 100) = Some q \<longrightarrow> q \<le> q99)"
proof -
  have len: "length (rows out) = length (rows ed)" using assms(2) by (rule msm_columns_length)
  have li: "length ipcw = length (rows ed)" using assms(3) by (rule get_column_length)
  have col: "''ipcw'' \<in> set (columns ed)" using assms(3) by (simp add: get_column_Inr_iff)
  have row: "\<exists>w ww. map_of (rows out ! i) ''ipcw'' = Some w \<and>
                   map_of (rows out ! i) ''ipcw_winsor'' = Some ww \<and>
                   ww \<le> q99 \<and> (w \<le> q99 \<longrightarrow> ww = w)" if "i < length (rows out)" for i
  proof -
    from that len have i: "i < length (rows ed)" by simp
    then have "has_column (rows ed ! i) ''ipcw''"
      using assms(1) col by (simp add: wf_frame_has_column)
    then have "map_of (rows ed ! i) ''ipcw'' = Some (ipcw ! i)"
      using get_column_nth [OF assms(3) i] by (auto simp: has_column_def)
    then have "map_of (rows out ! i) ''ipcw'' = Some (ipcw ! i)"
      using msm_columns_row [OF assms(2,3) i, of "''ipcw''"] by simp
    moreover have "map_of (rows out ! i) ''ipcw_winsor'' = Some (min (ipcw ! i) q99)"
      using msm_columns_row [OF assms(2,3) i, of "''ipcw_winsor''"] winsorize_nth [OF assms(4)] i li
      by simp
    ultimately show ?thesis by simp
  qed
  have again: "map (\<lambda>w. min w q99) (winsorize ipcw) = winsorize ipcw"
    by (simp add: winsorize_Some [OF assms(4)])
  have "q \<le> q99" if "quantile (winsorize ipcw) (99 / 100) = Some q" for q
    using that by (rule quantile_le_bound) (simp_all add: winsorize_Some [OF assms(4)])
  with row again show ?thesis by blast
qed

theorem winsorized_weight_capped_witness:
  "quantile [1, 2] (99 / 100) = Some (199 / 100) \<and>
   (\<exists>out. msm_columns example_two_weights = Inr out \<and>
      (\<exists>w ww. map_of (rows out ! 1) ''ipcw'' = Some w \<and>
              map_of (rows out ! 1) ''ipcw_winsor'' = Some ww \<and> ww \<le> 199 / 100) \<and>
      map (\<lambda>w. min w (199 / 100)) (winsorize [1, 2]) = winsorize [1, 2])"
proof -
  have wf: "wf_frame example_two_weights" by (simp add: wf_frame_def columns_def example_two_weights_def)
  have g: "get_column example_two_weights ''ipcw'' = Inr [1, 2]"
    by (simp add: get_column_def columns_def example_two_weights_def)
  have q: "quantile [1, 2] (99 / 100) = Some (199 / 100)"
    by (simp add: quantile_def)
  obtain out where out: "msm_columns example_two_weights = Inr out"
    using msm_columns_returns [of example_two_weights] by (auto simp: columns_def example_two_weights_def)
  have "length (rows out) = 2"
    using msm_columns_length [OF out] by (simp add: example_two_weights_def)
  then have "1 < length (rows out)" by simp
  with winsorized_weight_capped [OF wf out g q] out q show ?thesis by blast
qed

text \<open>
  Claim C2 as stated also says that a second pass, which recomputes the percentile,
  changes nothing. With linear interpolation the percentile of the winsorized column
  can lie below its largest value: on the weights 1 and 2 the first pass caps at 1.99
  and the second at 1.9801.
\<close>

theorem winsorize_twice_counterexample:
  "winsorize [1, 2] = [1, 199 / 100] \<and> winsorize (winsorize [1, 2]) = [1, 19801 / 10000] \<and>
   winsorize (winsorize [1, 2]) \<noteq> winsorize [1, 2]"
  by (simp add: winsorize_def quantile_def min_cap_def)

text \<open>
  Claim C6. When no input row has \<open>eligible\<close> equal to 1, the expander returns a table
  with no rows, and step 4 applied to that table raises, whatever the GLM fit would do:
  the table built from an empty list has no columns, so reading \<open>treatment\<close> is a
  \<open>KeyError\<close>.
\<close>

theorem no_eligible_row_outcome_model_raises:
  assumes "\<forall>r \<in> set (rows df). \<exists>v. map_of r ''eligible'' = Some v \<and> v \<noteq> 1"
  shows "\<exists>out. expand_trials df = Inr out \<and> rows out = [] \<and>
           msm_model glm_fit out = Inl (KeyError ''treatment'')"
proof -
  have "expand_trials df = Inr (DataFrame (common_dtype df) [])"
    using expand_loop_none_eligible [OF iterrows_none_eligible [OF assms]]
    by (simp add: expand_trials_def)
  moreover have "msm_model glm_fit (DataFrame (common_dtype df) []) = Inl (KeyError ''treatment'')"
    by (simp add: msm_model_def msm_columns_empty)
  ultimately show ?thesis by (simp add: rows_DataFrame)
qed

theorem no_eligible_row_outcome_model_raises_witness:
  "\<exists>out. expand_trials example_none_eligible = Inr out \<and> rows out = [] \<and>
     msm_model unit_glm out = Inl (KeyError ''treatment'')"
proof -
  have "\<forall>r \<in> set (rows example_none_eligible). \<exists>v. map_of r ''eligible'' = Some v \<and> v \<noteq> 1"
    by (simp add: example_none_eligible_def)
  then show ?thesis by (rule no_eligible_row_outcome_model_raises)
qed

lemma msm_model_eq:
  assumes "msm_columns ed = Inr expanded_data" and "design_matrices expanded_data = Inr d"
    and "get_column expanded_data ''ipcw_winsor'' = Inr w"
  shows "msm_model glm_fit ed = bind_err (glm_fit d w) (\<lambda>m. Inr (expanded_data, m))"
  by (simp add: msm_model_def assms)

lemma msm_model_Inr:
  assumes "msm_model glm_fit ed = Inr (expanded_data, m)"
  obtains d w where "msm_columns ed = Inr expanded_data"
    and "design_matrices expanded_data = Inr d"
    and "get_column expanded_data ''ipcw_winsor'' = Inr w" and "glm_fit d w = Inr m"
  using assms by (auto simp: msm_model_def bind_err_Inr_iff)

lemma followup_column_zero:
  assumes "expand_trials df = Inr ed" and "msm_columns ed = Inr expanded_data"
    and "get_column expanded_data ''followup_time'' = Inr fu"
  shows "fu = replicate (length (rows ed)) 0"
proof (rule nth_equalityI)
  have len: "length (rows expanded_data) = length (rows ed)"
    using assms(2) by (rule msm_columns_length)
  show l: "length fu = length (replicate (length (rows ed)) (0::real))"
    using get_column_length [OF assms(3)] len by simp
  fix i assume "i < length fu"
  then have i: "i < length (rows ed)" using l by simp
  then have "map_of (rows ed ! i) ''followup_time'' = Some 0"
    using expand_trials_followup [OF assms(1)] by simp
  then have "map_of (rows expanded_data ! i) ''followup_time'' = Some 0"
    using msm_columns_frame [OF assms(2) i, of "''followup_time''"] by simp
  then show "fu ! i = replicate (length (rows ed)) 0 ! i"
    using get_column_nth [OF assms(3), of i] i len by simp
qed

lemma design_matrices_returns:
  assumes "''outcome'' \<in> set (columns d)" and "''assigned_treatment'' \<in> set (columns d)"
    and "''x2'' \<in> set (columns d)" and "''followup_time'' \<in> set (columns d)"
    and "''trial_period'' \<in> set (columns d)"
  shows "\<exists>dm. design_matrices d = Inr dm"
  using assms by (simp add: design_matrices_def formula_var_def get_column_def)

lemma msm_model_returns:
  assumes "{''treatment'', ''ipcw'', ''outcome'', ''x2'', ''followup_time'', ''trial_period''}
             \<subseteq> set (columns ed)"
    and "\<And>d w. \<exists>m. glm_fit d w = Inr m"
  shows "\<exists>d m. msm_model glm_fit ed = Inr (d, m)"
proof -
  from assms(1) msm_columns_returns [of ed] obtain d where d: "msm_columns ed = Inr d" by auto
  from msm_columns_columns [OF d] assms(1)
  obtain dm where dm: "design_matrices d = Inr dm"
    using design_matrices_returns [of d] by auto
  from msm_columns_weights [OF d] obtain w where w: "get_column d ''ipcw_winsor'' = Inr w"
    by blast
  from assms(2) obtain m where "glm_fit dm w = Inr m" by blast
  then show ?thesis by (simp add: msm_model_eq [OF d dm w])
qed

text \<open>
  Claim C10. For every output of the expander on which step 4 reaches the fit, the
  design matrix that step 4 hands to the GLM fit, whichever fit it is, has a
  \<open>followup_time\<close> column and a \<open>np.power(followup_time, 2)\<close> column that are zero in
  every row.
\<close>

theorem followup_terms_are_zero:
  assumes "expand_trials df = Inr ed" and "msm_model glm_fit ed = Inr (expanded_data, m)"
  shows "\<exists>d w. glm_fit d w = Inr m \<and>
           (\<forall>fit. msm_model fit ed = bind_err (fit d w) (\<lambda>m. Inr (expanded_data, m))) \<and>
           map_of (exog d) ''followup_time'' = Some (replicate (length (rows ed)) 0) \<and>
           map_of (exog d) ''np.power(followup_time, 2)'' =
             Some (replicate (length (rows ed)) 0)"
proof -
  from assms(2) obtain d w where cols: "msm_columns ed = Inr expanded_data"
    and d: "design_matrices expanded_data = Inr d"
    and w: "get_column expanded_data ''ipcw_winsor'' = Inr w" and m: "glm_fit d w = Inr m"
    by (rule msm_model_Inr)
  from design_matrices_followup [OF d] obtain fu
    where fu: "get_column expanded_data ''followup_time'' = Inr fu"
      and x: "map_of (exog d) ''followup_time'' = Some fu"
         "map_of (exog d) ''np.power(followup_time, 2)'' = Some (map (\<lambda>t. t ^ 2) fu)"
    by blast
  have "fu = replicate (length (rows ed)) 0"
    using assms(1) cols fu by (rule followup_column_zero)
  with x have "map_of (exog d) ''followup_time'' = Some (replicate (length (rows ed)) 0)"
    "map_of (exog d) ''np.power(followup_time, 2)'' = Some (replicate (length (rows ed)) 0)"
    by simp_all
  moreover have "\<forall>fit. msm_model fit ed = bind_err (fit d w) (\<lambda>m. Inr (expanded_data, m))"
    using msm_model_eq [OF cols d w] by blast
  ultimately show ?thesis using m by blast
qed

lemma pipeline_on_trial_data:
  assumes "\<And>d w. \<exists>r. glm_fit d w = Inr r"
  shows "\<exists>d2 d3 d4 r. censoring_weights (\<lambda>d. Inr m) trial_data = Inr d2 \<and>
           length (rows d2) = 10 \<and>
           map_of (rows d2 ! 0) ''age'' = map_of (rows trial_data ! 0) ''age'' \<and>
           set (columns d2) =
             set (columns trial_data) \<union> {''uncensored'', ''p_uncensored'', ''ipcw''} \<and>
           expand_trials d2 = Inr d3 \<and> rows d3 \<noteq> [] \<and>
           msm_model glm_fit d3 = Inr (d4, r)"
proof -
  have "\<exists>out. censoring_weights (\<lambda>d. Inr m) trial_data = Inr out \<and>
          length (rows out) = length (rows trial_data)"
    by (rule censoring_weights_returns) (simp_all add: trial_data_schema)
  then obtain d2 where d2: "censoring_weights (\<lambda>d. Inr m) trial_data = Inr d2"
    and len: "length (rows d2) = 10"
    by (auto simp: trial_data_schema)
  note cols = censoring_weights_shape(1) [OF d2]
  have wf: "wf_frame d2"
    using d2 trial_data_schema(1) by (rule censoring_weights_shape(2))
  have same: "map_of (rows d2 ! 0) c = map_of (rows trial_data ! 0) c"
    if "c \<noteq> ''uncensored''" "c \<noteq> ''p_uncensored''" "c \<noteq> ''ipcw''" for c
    using censoring_weights_frame(2) [OF d2, of 0 c] that by (simp add: trial_data_schema)
  then have "is_eligible (rows d2 ! 0)"
    using trial_data_schema(4) by (simp add: is_eligible_def)
  moreover from len have "rows d2 ! 0 \<in> set (rows d2)" by simp
  ultimately have ne: "filter is_eligible (rows d2) \<noteq> []" by (auto simp: filter_empty_conv)
  have "\<exists>out. expand_trials d2 = Inr out \<and> rows out \<noteq> [] \<and>
          set (columns out) = set (columns d2) \<union> {''trial_period'', ''followup_time''}"
    using wf _ _ ne by (rule expand_trials_columns) (simp_all add: cols trial_data_schema)
  then obtain d3 where d3: "expand_trials d2 = Inr d3" "rows d3 \<noteq> []"
    and cols3: "set (columns d3) = set (columns d2) \<union> {''trial_period'', ''followup_time''}"
    by blast
  have "\<exists>d r. msm_model glm_fit d3 = Inr (d, r)"
    using _ assms by (rule msm_model_returns) (simp add: cols3 cols trial_data_schema)
  with d2 len cols d3 same [of "''age''"] show ?thesis by auto
qed

theorem followup_terms_are_zero_witness:
  "\<forall>m. \<exists>d2 ed x d w. censoring_weights (\<lambda>d. Inr m) trial_data = Inr d2 \<and>
     expand_trials d2 = Inr ed \<and> rows ed \<noteq> [] \<and>
     msm_model recording_glm ed = Inr (x, (d, w)) \<and>
     map_of (exog d) ''followup_time'' = Some (replicate (length (rows ed)) 0) \<and>
     map_of (exog d) ''np.power(followup_time, 2)'' = Some (replicate (length (rows ed)) 0)"
proof
  fix m
  have "\<exists>r. recording_glm d w = Inr r" for d w by (simp add: recording_glm_def)
  from pipeline_on_trial_data [of recording_glm m, OF this] obtain d2 ed x d w
    where d2: "censoring_weights (\<lambda>d. Inr m) trial_data = Inr d2"
      and ed: "expand_trials d2 = Inr ed" "rows ed \<noteq> []"
      and run: "msm_model recording_glm ed = Inr (x, (d, w))"
    by auto
  from followup_terms_are_zero [OF ed(1) run]
  have "map_of (exog d) ''followup_time'' = Some (replicate (length (rows ed)) 0)"
    "map_of (exog d) ''np.power(followup_time, 2)'' = Some (replicate (length (rows ed)) 0)"
    by (auto simp: recording_glm_def)
  with d2 ed run
  show "\<exists>d2 ed x d w. censoring_weights (\<lambda>d. Inr m) trial_data = Inr d2 \<and>
     expand_trials d2 = Inr ed \<and> rows ed \<noteq> [] \<and>
     msm_model recording_glm ed = Inr (x, (d, w)) \<and>
     map_of (exog d) ''followup_time'' = Some (replicate (length (rows ed)) 0) \<and>
     map_of (exog d) ''np.power(followup_time, 2)'' = Some (replicate (length (rows ed)) 0)"
    by blast
qed

subsection \<open>Objects\<close>

lemma bind_err_assoc:
  "bind_err (bind_err m f) g = bind_err m (\<lambda>x. bind_err (f x) g)"
  by (cases m) simp_all

lemma frames_put_frame: "frames (put_frame h df d) = (frames h)[df := d]"
  by (simp add: put_frame_def)

lemma series_put_frame: "series (put_frame h df d) = series h"
  by (simp add: put_frame_def)

lemma put_frame_twice: "put_frame (put_frame h df d) df d' = put_frame h df d'"
  by (simp add: put_frame_def)

lemma frame_at_here: "df < length (frames h) \<Longrightarrow> frame_at h df = Inr (frames h ! df)"
  by (simp add: frame_at_def)

lemma frame_at_put: "df < length (frames h) \<Longrightarrow> frame_at (put_frame h df d) df = Inr d"
  by (simp add: frame_at_def put_frame_def)

lemma frame_at_Inr: "frame_at h df = Inr d \<Longrightarrow> df < length (frames h) \<and> d = frames h ! df"
  by (auto simp: frame_at_def split: if_splits)

lemma frame_getitem_here:
  "df < length (frames h) \<Longrightarrow> frame_getitem h df c = get_column (frames h ! df) c"
  by (simp add: frame_getitem_def frame_at_here)

lemma frame_getitem_put:
  "df < length (frames h) \<Longrightarrow> frame_getitem (put_frame h df d) df c = get_column d c"
  by (simp add: frame_getitem_def frame_at_put)

lemma frame_dtype_here:
  "df < length (frames h) \<Longrightarrow> frame_dtype h df c = column_dtype (frames h ! df) c"
  by (simp add: frame_dtype_def frame_at_here)

lemma frame_dtype_put:
  "df < length (frames h) \<Longrightarrow> frame_dtype (put_frame h df d) df c = column_dtype d c"
  by (simp add: frame_dtype_def frame_at_put)

lemma frame_setitem_here:
  "df < length (frames h) \<Longrightarrow>
   frame_setitem h df c dt vals = Inr (put_frame h df (set_column (frames h ! df) c dt vals))"
  by (simp add: frame_setitem_def frame_at_here)

lemma frame_setitem_put:
  "df < length (frames h) \<Longrightarrow>
   frame_setitem (put_frame h df d) df c dt vals = Inr (put_frame h df (set_column d c dt vals))"
  by (simp add: frame_setitem_def frame_at_put put_frame_twice)

lemma frame_getitem_unbound:
  "\<not> df < length (frames h) \<Longrightarrow> frame_getitem h df c = Inl (NameError ''DataFrame'')"
  by (simp add: frame_getitem_def frame_at_def)

subsection \<open>Step 2 and step 4 on the heap\<close>

lemma cell_ipcw_eq:
  assumes "data < length (frames h)"
  shows "cell_ipcw fit h data =
           bind_err (censoring_weights fit (frames h ! data)) (\<lambda>d. Inr (put_frame h data d))"
  using assms
  by (simp add: cell_ipcw_def censoring_weights_def add_uncensored_def attach_weights_def
      bind_err_assoc Let_def frame_getitem_here frame_dtype_here frame_setitem_here
      frame_at_put frame_getitem_put frame_setitem_put)

lemma cell_ipcw_Inr:
  assumes "cell_ipcw fit h data = Inr h'"
  obtains d where "data < length (frames h)"
    and "censoring_weights fit (frames h ! data) = Inr d" and "h' = put_frame h data d"
proof -
  have b: "data < length (frames h)"
  proof (rule ccontr)
    assume "\<not> data < length (frames h)"
    then have "cell_ipcw fit h data = Inl (NameError ''DataFrame'')"
      by (simp add: cell_ipcw_def frame_getitem_unbound)
    with assms show False by simp
  qed
  with assms that show thesis
    by (auto simp: cell_ipcw_eq bind_err_Inr_iff)
qed

lemma cell_msm_eq:
  assumes "expanded_data < length (frames h)"
  shows "cell_msm glm_fit h expanded_data =
           bind_err (msm_model glm_fit (frames h ! expanded_data))
             (\<lambda>(d, m). Inr (put_frame h expanded_data d, m))"
  using assms
  by (simp add: cell_msm_def msm_model_def msm_columns_def bind_err_assoc Let_def
      frame_getitem_here frame_dtype_here frame_setitem_here frame_at_put frame_getitem_put
      frame_dtype_put frame_setitem_put)

lemma cell_msm_Inr:
  assumes "cell_msm glm_fit h expanded_data = Inr (h', m)"
  obtains d where "expanded_data < length (frames h)"
    and "msm_model glm_fit (frames h ! expanded_data) = Inr (d, m)"
    and "h' = put_frame h expanded_data d"
proof -
  have b: "expanded_data < length (frames h)"
  proof (rule ccontr)
    assume "\<not> expanded_data < length (frames h)"
    then have "cell_msm glm_fit h expanded_data = Inl (NameError ''DataFrame'')"
      by (simp add: cell_msm_def frame_getitem_unbound)
    with assms show False by simp
  qed
  with assms that show thesis
    by (auto simp: cell_msm_eq bind_err_Inr_iff)
qed

subsection \<open>Step 3 on the heap\<close>

lemma expand_rows_step:
  "expand_rows h (r # rest) refs =
     (case row_get r ''eligible'' of
        Inl e \<Rightarrow> Inl e
      | Inr el \<Rightarrow>
          if el = 1 then
            (case row_get r ''period'' of
               Inl e \<Rightarrow> Inl e
             | Inr p \<Rightarrow>
                 expand_rows
                   (h\<lparr>series := series h @
                      [r, row_set (row_set r ''trial_period'' p) ''followup_time'' 0]\<rparr>)
                   rest (refs @ [Suc (length (series h))]))
          else expand_rows (h\<lparr>series := series h @ [r]\<rparr>) rest refs)"
  by (simp add: new_series_def series_getitem_def series_at_def series_copy_def
      series_setitem_def put_series_def nth_append list_update_append split: sum.splits)

lemma expand_rows_refines:
  assumes "list_all2 (\<lambda>s r. s < length (series h) \<and> series h ! s = r) refs acc"
  shows "(\<forall>e. expand_loop rs acc = Inl e \<longrightarrow> expand_rows h rs refs = Inl e) \<and>
         (\<forall>out. expand_loop rs acc = Inr out \<longrightarrow>
            (\<exists>h' refs'. expand_rows h rs refs = Inr (h', refs') \<and> frames h' = frames h \<and>
               take (length (series h)) (series h') = series h \<and>
               map (\<lambda>s. series h' ! s) refs' = out))"
  using assms
proof (induction rs arbitrary: h refs acc)
  case Nil
  then have "map (\<lambda>s. series h ! s) refs = acc"
    by (induction refs acc rule: list_all2_induct) simp_all
  then show ?case by simp
next
  case (Cons r rs)
  show ?case
  proof (cases "row_get r ''eligible''")
    case (Inl e)
    then show ?thesis by (simp add: expand_rows_step del: expand_rows.simps)
  next
    case el: (Inr v)
    show ?thesis
    proof (cases "v = 1")
      case False
      let ?h = "h\<lparr>series := series h @ [r]\<rparr>"
      have inv: "list_all2 (\<lambda>s r. s < length (series ?h) \<and> series ?h ! s = r) refs acc"
        using Cons.prems by (rule list_all2_mono) (auto simp: nth_append)
      have l: "expand_loop (r # rs) acc = expand_loop rs acc"
        "expand_rows h (r # rs) refs = expand_rows ?h rs refs"
        using el False by (simp_all add: expand_rows_step del: expand_rows.simps)
      have "take (length (series h)) (series h') = series h"
        if "take (length (series ?h)) (series h') = series ?h" for h'
      proof -
        have "take (length (series h)) (take (length (series ?h)) (series h')) = series h"
          unfolding that by simp
        then show ?thesis by (simp add: min_def)
      qed
      with Cons.IH [OF inv] show ?thesis unfolding l by (simp; blast)
    next
      case True
      show ?thesis
      proof (cases "row_get r ''period''")
        case (Inl e)
        with el True show ?thesis by (simp add: expand_rows_step del: expand_rows.simps)
      next
        case (Inr p)
        let ?n = "row_set (row_set r ''trial_period'' p) ''followup_time'' 0"
        let ?h = "h\<lparr>series := series h @ [r, ?n]\<rparr>"
        have old: "list_all2 (\<lambda>s r. s < length (series ?h) \<and> series ?h ! s = r) refs acc"
          using Cons.prems by (rule list_all2_mono) (auto simp: nth_append)
        have inv: "list_all2 (\<lambda>s r. s < length (series ?h) \<and> series ?h ! s = r)
                     (refs @ [Suc (length (series h))]) (acc @ [?n])"
          using old by (intro list_all2_appendI) (simp_all add: nth_append)
        have l: "expand_loop (r # rs) acc = expand_loop rs (acc @ [?n])"
          "expand_rows h (r # rs) refs = expand_rows ?h rs (refs @ [Suc (length (series h))])"
          using el True Inr by (simp_all add: expand_rows_step del: expand_rows.simps)
        have "take (length (series h)) (series h') = series h"
          if "take (length (series ?h)) (series h') = series ?h" for h'
        proof -
          have "take (length (series h)) (take (length (series ?h)) (series h')) = series h"
            unfolding that by simp
          then show ?thesis by (simp add: min_def)
        qed
        with Cons.IH [OF inv] show ?thesis unfolding l by (simp; blast)
      qed
    qed
  qed
qed

lemma cell_expand_eq:
  assumes "data < length (frames h)"
  shows "(\<forall>e. expand_trials (frames h ! data) = Inl e \<longrightarrow> cell_expand h data = Inl e) \<and>
         (\<forall>d. expand_trials (frames h ! data) = Inr d \<longrightarrow>
            (\<exists>h'. cell_expand h data = Inr (h', length (frames h)) \<and>
               frames h' = frames h @ [d] \<and>
               take (length (series h)) (series h') = series h))"
proof -
  let ?df = "frames h ! data"
  have inv: "list_all2 (\<lambda>s r. s < length (series h) \<and> series h ! s = r) [] []" by simp
  note r = expand_rows_refines [OF inv, of "iterrows ?df"]
  show ?thesis
  proof (cases "expand_loop (iterrows ?df) []")
    case (Inl e)
    with r have "expand_rows h (iterrows ?df) [] = Inl e" by simp
    with Inl assms show ?thesis
      by (simp add: cell_expand_def expand_trials_def frame_at_here)
  next
    case (Inr out)
    with r obtain h1 refs where run: "expand_rows h (iterrows ?df) [] = Inr (h1, refs)"
      and fr: "frames h1 = frames h"
      and se: "take (length (series h)) (series h1) = series h"
      and out: "map (\<lambda>s. series h1 ! s) refs = out"
      by auto
    have "cell_expand h data =
            Inr (new_frame h1 (DataFrame (common_dtype ?df) out))"
      using assms run out by (simp add: cell_expand_def frame_at_here)
    with Inr fr se show ?thesis
      by (simp add: expand_trials_def new_frame_def)
  qed
qed

lemma cell_expand_Inr:
  assumes "cell_expand h data = Inr (h', expanded)"
  obtains d where "data < length (frames h)" and "expand_trials (frames h ! data) = Inr d"
    and "frames h' = frames h @ [d]" and "expanded = length (frames h)"
    and "take (length (series h)) (series h') = series h"
proof -
  have b: "data < length (frames h)"
  proof (rule ccontr)
    assume "\<not> data < length (frames h)"
    then have "cell_expand h data = Inl (NameError ''DataFrame'')"
      by (simp add: cell_expand_def frame_at_def)
    with assms show False by simp
  qed
  show thesis
  proof (cases "expand_trials (frames h ! data)")
    case (Inl e)
    with cell_expand_eq [OF b] assms show ?thesis by simp
  next
    case (Inr d)
    with cell_expand_eq [OF b] assms have "frames h' = frames h @ [d]"
      "expanded = length (frames h)" "take (length (series h)) (series h') = series h"
      by auto
    with b Inr that show ?thesis by blast
  qed
qed

subsection \<open>Which step writes which table\<close>

text \<open>
  Claim C9, as amended. The expander puts one new table on the heap, the one
  \<open>expand_trials\<close> computes from its input, and changes no table that was there: its
  assignments go to rows it has copied. Step 2 and step 4 allocate nothing: each
  leaves in place of the table it is given that table with its derived columns
  assigned, changes no other table, and leaves every other column of each row of that
  table unchanged.
\<close>

theorem cells_tables_in_place_or_new:
  "(cell_expand h data = Inr (h1, expanded) \<longrightarrow>
      expanded = length (frames h) \<and>
      (\<exists>d. expand_trials (frames h ! data) = Inr d \<and> frames h1 = frames h @ [d]) \<and>
      take (length (series h)) (series h1) = series h) \<and>
   (cell_ipcw fit h data = Inr h2 \<longrightarrow>
      series h2 = series h \<and> length (frames h2) = length (frames h) \<and>
      (\<forall>r. r \<noteq> data \<longrightarrow> frames h2 ! r = frames h ! r) \<and>
      censoring_weights fit (frames h ! data) = Inr (frames h2 ! data) \<and>
      length (rows (frames h2 ! data)) = length (rows (frames h ! data)) \<and>
      (\<forall>i < length (rows (frames h ! data)). \<forall>c.
         c \<noteq> ''uncensored'' \<and> c \<noteq> ''p_uncensored'' \<and> c \<noteq> ''ipcw'' \<longrightarrow>
         map_of (rows (frames h2 ! data) ! i) c = map_of (rows (frames h ! data) ! i) c)) \<and>
   (cell_msm glm_fit h expanded_data = Inr (h3, m) \<longrightarrow>
      series h3 = series h \<and> length (frames h3) = length (frames h) \<and>
      (\<forall>r. r \<noteq> expanded_data \<longrightarrow> frames h3 ! r = frames h ! r) \<and>
      msm_columns (frames h ! expanded_data) = Inr (frames h3 ! expanded_data) \<and>
      length (rows (frames h3 ! expanded_data)) = length (rows (frames h ! expanded_data)) \<and>
      (\<forall>i < length (rows (frames h ! expanded_data)). \<forall>c.
         c \<noteq> ''assigned_treatment'' \<and> c \<noteq> ''ipcw_winsor'' \<longrightarrow>
         map_of (rows (frames h3 ! expanded_data) ! i) c =
           map_of (rows (frames h ! expanded_data) ! i) c))"
proof (intro conjI impI)
  assume "cell_expand h data = Inr (h1, expanded)"
  then obtain d where "expand_trials (frames h ! data) = Inr d" "frames h1 = frames h @ [d]"
    "expanded = length (frames h)" "take (length (series h)) (series h1) = series h"
    by (rule cell_expand_Inr)
  then show "expanded = length (frames h)"
    "\<exists>d. expand_trials (frames h ! data) = Inr d \<and> frames h1 = frames h @ [d]"
    "take (length (series h)) (series h1) = series h"
    by simp_all
next
  assume "cell_ipcw fit h data = Inr h2"
  then obtain d where d: "data < length (frames h)"
    "censoring_weights fit (frames h ! data) = Inr d" "h2 = put_frame h data d"
    by (rule cell_ipcw_Inr)
  then show "series h2 = series h" "length (frames h2) = length (frames h)"
    "\<forall>r. r \<noteq> data \<longrightarrow> frames h2 ! r = frames h ! r"
    "censoring_weights fit (frames h ! data) = Inr (frames h2 ! data)"
    by (simp_all add: put_frame_def)
  from d have e: "frames h2 ! data = d" by (simp add: put_frame_def)
  show "length (rows (frames h2 ! data)) = length (rows (frames h ! data))"
    unfolding e using d(2) by (rule censoring_weights_frame(1))
  show "\<forall>i < length (rows (frames h ! data)). \<forall>c.
         c \<noteq> ''uncensored'' \<and> c \<noteq> ''p_uncensored'' \<and> c \<noteq> ''ipcw'' \<longrightarrow>
         map_of (rows (frames h2 ! data) ! i) c = map_of (rows (frames h ! data) ! i) c"
    unfolding e using censoring_weights_frame(2) [OF d(2)] by blast
next
  assume "cell_msm glm_fit h expanded_data = Inr (h3, m)"
  then obtain d where d: "expanded_data < length (frames h)"
    "msm_model glm_fit (frames h ! expanded_data) = Inr (d, m)"
    "h3 = put_frame h expanded_data d"
    by (rule cell_msm_Inr)
  from d(2) have c: "msm_columns (frames h ! expanded_data) = Inr d"
    by (rule msm_model_Inr)
  from d have e: "frames h3 ! expanded_data = d" by (simp add: put_frame_def)
  from d show "series h3 = series h" "length (frames h3) = length (frames h)"
    "\<forall>r. r \<noteq> expanded_data \<longrightarrow> frames h3 ! r = frames h ! r"
    by (simp_all add: put_frame_def)
  show "msm_columns (frames h ! expanded_data) = Inr (frames h3 ! expanded_data)"
    unfolding e by (rule c)
  show "length (rows (frames h3 ! expanded_data)) = length (rows (frames h ! expanded_data))"
    unfolding e using c by (rule msm_columns_length)
  show "\<forall>i < length (rows (frames h ! expanded_data)). \<forall>c.
         c \<noteq> ''assigned_treatment'' \<and> c \<noteq> ''ipcw_winsor'' \<longrightarrow>
         map_of (rows (frames h3 ! expanded_data) ! i) c =
           map_of (rows (frames h ! expanded_data) ! i) c"
    unfolding e using msm_columns_frame [OF c] by blast
qed

lemma steps_on_trial_data:
  "\<exists>h2 h1 h3. cell_ipcw (\<lambda>d. Inr m) notebook_start 0 = Inr h2 \<and>
     frames h2 ! 0 \<noteq> frames notebook_start ! 0 \<and> ''ipcw'' \<in> set (columns (frames h2 ! 0)) \<and>
     cell_expand h2 0 = Inr (h1, 1) \<and>
     cell_msm unit_glm h1 1 = Inr (h3, ())"
proof -
  have "\<exists>r. unit_glm d w = Inr r" for d w by (simp add: unit_glm_def)
  from pipeline_on_trial_data [of unit_glm m, OF this] obtain d2 d3 d4
    where d2: "censoring_weights (\<lambda>d. Inr m) trial_data = Inr d2"
      and cols: "set (columns d2) =
                   set (columns trial_data) \<union> {''uncensored'', ''p_uncensored'', ''ipcw''}"
      and d3: "expand_trials d2 = Inr d3" and d4: "msm_model unit_glm d3 = Inr (d4, ())"
    by auto
  let ?h2 = "put_frame notebook_start 0 d2"
  have f2: "frames ?h2 = [d2]" by (simp add: put_frame_def notebook_start_def)
  have run2: "cell_ipcw (\<lambda>d. Inr m) notebook_start 0 = Inr ?h2"
    using cell_ipcw_eq [of 0 notebook_start "\<lambda>d. Inr m"] d2 by (simp add: notebook_start_def)
  have new: "''ipcw'' \<in> set (columns d2)" by (simp add: cols)
  have "''ipcw'' \<notin> set (columns (frames notebook_start ! 0))"
    by (simp add: notebook_start_def trial_data_schema)
  with new have changed: "d2 \<noteq> frames notebook_start ! 0" by auto
  from cell_expand_eq [of 0 ?h2] d3 obtain h1 where run3: "cell_expand ?h2 0 = Inr (h1, 1)"
    and f1: "frames h1 = [d2, d3]"
    by (auto simp: f2)
  have "cell_msm unit_glm h1 1 = Inr (put_frame h1 1 d4, ())"
    using cell_msm_eq [of 1 h1 unit_glm] d4 by (simp add: f1)
  with run2 run3 changed new f2 show ?thesis by auto
qed

theorem cells_tables_in_place_or_new_witness:
  "\<forall>m. \<exists>h2 h1 h3. cell_ipcw (\<lambda>d. Inr m) notebook_start 0 = Inr h2 \<and>
     cell_expand h2 0 = Inr (h1, 1) \<and>
     cell_msm unit_glm h1 1 = Inr (h3, ()) \<and>
     length (frames h2) = 1 \<and>
     map_of (rows (frames h2 ! 0) ! 0) ''age'' = Some 36 \<and>
     length (frames h1) = 2 \<and> frames h1 ! 0 = frames h2 ! 0 \<and>
     length (frames h3) = 2 \<and> frames h3 ! 0 = frames h1 ! 0 \<and> series h3 = series h1"
proof
  fix m
  from steps_on_trial_data [of m] obtain h2 h1 h3
    where run2: "cell_ipcw (\<lambda>d. Inr m) notebook_start 0 = Inr h2"
      and run3: "cell_expand h2 0 = Inr (h1, 1)"
      and run4: "cell_msm unit_glm h1 1 = Inr (h3, ())"
    by blast
  note step2 = cells_tables_in_place_or_new
    [of notebook_start 0 notebook_start 0 "\<lambda>d. Inr m" h2 unit_glm 0 notebook_start "()"]
  note step3 = cells_tables_in_place_or_new
    [of h2 0 h1 1 "\<lambda>d. Inr m" h2 unit_glm 0 h2 "()"]
  note step4 = cells_tables_in_place_or_new
    [of h1 0 h1 0 "\<lambda>d. Inr m" h1 unit_glm 1 h3 "()"]
  have s0: "frames notebook_start ! 0 = trial_data" "length (frames notebook_start) = 1"
    by (simp_all add: notebook_start_def)
  from step2 run2 have l2: "length (frames h2) = 1"
    and age: "map_of (rows (frames h2 ! 0) ! 0) ''age'' = Some 36"
    by (simp_all add: s0 trial_data_schema)
  from step3 run3 obtain d where "frames h1 = frames h2 @ [d]" by auto
  with l2 have l1: "length (frames h1) = 2" "frames h1 ! 0 = frames h2 ! 0"
    by (simp_all add: nth_append)
  from step4 run4 l1 have "length (frames h3) = 2" "frames h3 ! 0 = frames h1 ! 0"
    "series h3 = series h1"
    by simp_all
  with run2 run3 run4 l2 age l1
  show "\<exists>h2 h1 h3. cell_ipcw (\<lambda>d. Inr m) notebook_start 0 = Inr h2 \<and>
     cell_expand h2 0 = Inr (h1, 1) \<and>
     cell_msm unit_glm h1 1 = Inr (h3, ()) \<and>
     length (frames h2) = 1 \<and>
     map_of (rows (frames h2 ! 0) ! 0) ''age'' = Some 36 \<and>
     length (frames h1) = 2 \<and> frames h1 ! 0 = frames h2 ! 0 \<and>
     length (frames h3) = 2 \<and> frames h3 ! 0 = frames h1 ! 0 \<and> series h3 = series h1"
    by blast
qed

text \<open>
  Claim C9 as stated says that every step returns a new table and changes none of an
  earlier step. Run step 2 on the heap that holds the loaded table \<open>trial_data\<close> alone:
  whatever coefficients the fit returns, the heap holds one table afterwards, and it is
  not the loaded table any more: it has the column \<open>ipcw\<close>.
\<close>

theorem cell_ipcw_changes_loaded_table_counterexample:
  "\<forall>m. \<exists>h2. cell_ipcw (\<lambda>d. Inr m) notebook_start 0 = Inr h2 \<and>
     length (frames h2) = 1 \<and>
     ''ipcw'' \<in> set (columns (frames h2 ! 0)) \<and>
     ''ipcw'' \<notin> set (columns (frames notebook_start ! 0)) \<and>
     frames h2 ! 0 \<noteq> frames notebook_start ! 0"
proof
  fix m
  from steps_on_trial_data [of m] obtain h2
    where run2: "cell_ipcw (\<lambda>d. Inr m) notebook_start 0 = Inr h2"
      and changed: "frames h2 ! 0 \<noteq> frames notebook_start ! 0"
      and new: "''ipcw'' \<in> set (columns (frames h2 ! 0))"
    by blast
  from run2 obtain d where "h2 = put_frame notebook_start 0 d" by (rule cell_ipcw_Inr)
  then have "length (frames h2) = 1" by (simp add: put_frame_def notebook_start_def)
  moreover have "''ipcw'' \<notin> set (columns (frames notebook_start ! 0))"
    by (simp add: notebook_start_def trial_data_schema)
  ultimately
  show "\<exists>h2. cell_ipcw (\<lambda>d. Inr m) notebook_start 0 = Inr h2 \<and>
     length (frames h2) = 1 \<and>
     ''ipcw'' \<in> set (columns (frames h2 ! 0)) \<and>
     ''ipcw'' \<notin> set (columns (frames notebook_start ! 0)) \<and>
     frames h2 ! 0 \<noteq> frames notebook_start ! 0"
    using run2 changed new by blast
qed

end
